theory Spec2Isabelle
  imports Complex_Main "HOL-Library.AList"
begin

section \<open>Network telemetry of molly-skeleton: the class Metrics\<close>

text \<open>
  The development embeds three parts of the class \<open>Metrics\<close>: the session observer
  \<open>monitorNetworkTraffic\<close>, the merge \<open>mergeNetworkTraces\<close> and its inner function
  \<open>extendJsonWithErrors\<close>, the error classifier.

  Conventions of the embedding.
  \<^item> A JavaScript number on which the code computes (response times, the counters of
    \<open>overallInformation\<close>) is a value of a type \<open>'n\<close> of which only the operations
    \<open>0\<close>, \<open>1\<close>, \<open>+\<close>, \<open>-\<close>, \<open>/\<close> and \<open><\<close> are used and of which no law is assumed:
    the theorems hold for every interpretation of the arithmetic, IEEE doubles included.
  \<^item> A status code is a natural number.
  \<^item> A log line is a constructor of \<open>log_entry\<close>, one for each message of the source.
  \<^item> An exception is a value \<open>TypeError\<close>; a function that can throw returns it in a sum.
  \<^item> The handlers of the observer are asynchronous functions; the model runs each of them
    to its end before the next event is delivered.
  \<^item> Serialising and parsing (\<open>JSON.stringify\<close>, \<open>JSON.parse\<close>) are the identity on the
    data of the model, apart from a file that does not parse.
\<close>

subsection \<open>Strings\<close>

text \<open>\<open>s.startsWith(q)\<close> and \<open>s.includes(q)\<close> of JavaScript strings.\<close>

definition startsWith :: "string \<Rightarrow> string \<Rightarrow> bool" where
  "startsWith s q = (take (length q) s = q)"

fun str_includes :: "string \<Rightarrow> string \<Rightarrow> bool" where
  "str_includes [] q = (q = [])"
| "str_includes (c # s) q = (startsWith (c # s) q \<or> str_includes s q)"

subsection \<open>Data of a session trace\<close>

type_synonym headers = "(string \<times> string) list"

text \<open>
  Of a request body the code reads one property, \<open>operationName\<close>, and uses it as a
  property key; the record holds that key.
\<close>

record requestBody =
  operationName :: string

text \<open>
  The interface \<open>RequestData\<close>. An absent (\<open>undefined\<close> or \<open>null\<close>) \<open>requestBody\<close>,
  \<open>responseBody\<close> or \<open>responseStatusCode\<close> is \<open>None\<close>. The type \<open>'b\<close> is the type of
  response bodies (\<open>any\<close> in the source; the observer stores strings).
\<close>

record ('n, 'b) RequestData =
  statusCode :: nat
  requestUrl :: string
  requestHeaders :: headers
  requestBody :: "requestBody option"
  responseUrl :: string
  responseHeaders :: headers
  responseBody :: "'b option"
  responseTime :: 'n
  responseStatusCode :: "nat option"

record 'n overallInformation =
  avgResponseTime :: 'n
  totalRequests :: 'n
  totalTime :: 'n
  contextTime :: 'n

record ('n, 'b) CollectedData =
  overallInformation :: "'n overallInformation"
  requests :: "('n, 'b) RequestData list"

subsection \<open>The configuration and the driver's objects\<close>

text \<open>\<open>MollyConfig.global.metrics.networkTraffic\<close>.\<close>

record 'n networkTraffic =
  URLQuery :: "string list"
  threshold_ms :: 'n

text \<open>
  The objects the browser driver hands to the handler of \<open>requestfinished\<close>. The code
  guards two of the driver's calls, \<open>data.response()\<close> (a \<open>.catch\<close>) and
  \<open>response.body()\<close> (a \<open>try\<close>): these two can fail in the model. A
  \<open>data.response()\<close> that gives no response object is rejected, with a string or
  another object as its reason, or resolves to \<open>null\<close>; a failed \<open>response.body()\<close>
  is \<open>None\<close>. The other accessors return. \<open>response_responseStatusCode\<close> is the
  property \<open>response.responseStatusCode\<close> that the code reads from the response object.
\<close>

record 'n timing =
  requestStart :: 'n
  responseEnd :: 'n

record response =
  response_status :: nat
  response_url :: string
  response_allHeaders :: headers
  response_body :: "string option"
  response_responseStatusCode :: "nat option"

datatype no_response = Rejected_with_string string | Rejected_with_object | Resolved_null

record 'n data =
  data_response :: "no_response + response"
  data_url :: string
  data_timing :: "'n timing"
  data_allHeaders :: headers
  data_postDataJSON :: "requestBody option"

subsection \<open>Log lines and exceptions\<close>

datatype log_entry =
    Warn_not_properly_awaited
  | Warn_could_not_get_response_Buffer string
  | Info_saving_started
  | Success_metrics_saved string
  | Info_no_data_to_save
  | Info_merging_network_metrics
  | Warn_metrics_folder_not_found
  | Warn_cannot_parse string
  | Warn_no_requests_found
  | Warn_requests_with_no_response_bodies
  | Info_gathering_errors

datatype js_error = TypeError

subsection \<open>The session observer: monitorNetworkTraffic\<close>

record ('n, 'b) observer =
  collectedData :: "('n, 'b) CollectedData"
  logged :: "log_entry list"

definition initialData :: "('n::zero, 'b) CollectedData" where
  "initialData =
     \<lparr>overallInformation =
        \<lparr>avgResponseTime = 0, totalRequests = 0, totalTime = 0, contextTime = 0\<rparr>,
      requests = []\<rparr>"

text \<open>\<open>MollyConfig.global.metrics.networkTraffic.URLQuery.some(query => url.includes(query))\<close>\<close>

definition matchesURLQuery :: "('n, 'x) networkTraffic_scheme \<Rightarrow> string \<Rightarrow> bool" where
  "matchesURLQuery cfg url = list_ex (\<lambda>query. str_includes url query) (URLQuery cfg)"

text \<open>
  The \<open>.catch\<close> of \<open>data.response()\<close>: \<open>e.includes(...)\<close> is a string search when the
  reason is a string, and is not a function when the reason is an error object, so that
  the callback throws; a \<open>null\<close> response does not reach the callback. In all three
  cases \<open>response\<close> is not an object afterwards and the handler ends in a
  \<open>TypeError\<close>, at \<open>response.status()\<close> at the latest, before it touches the
  collected data.
\<close>

definition catch_response :: "no_response \<Rightarrow> log_entry list" where
  "catch_response e =
     (case e of
        Rejected_with_string s \<Rightarrow>
          (if str_includes s ''Target page, context or browser has been closed''
           then [Warn_not_properly_awaited] else [])
      | Rejected_with_object \<Rightarrow> []
      | Resolved_null \<Rightarrow> [])"

text \<open>\<open>const responseTime = timing.responseEnd - timing.requestStart\<close>\<close>

definition responseTime_of :: "'n::minus data \<Rightarrow> 'n" where
  "responseTime_of d = responseEnd (data_timing d) - requestStart (data_timing d)"

text \<open>The object literal \<open>dataObject\<close>, with the body that was read, if it was.\<close>

definition dataObject ::
  "'n::minus data \<Rightarrow> response \<Rightarrow> string option \<Rightarrow> ('n, string) RequestData" where
  "dataObject d response responseBodyBuffer =
     \<lparr>statusCode = response_status response,
      requestUrl = data_url d,
      requestHeaders = data_allHeaders d,
      requestBody = data_postDataJSON d,
      responseUrl = response_url response,
      responseHeaders = response_allHeaders response,
      responseBody = responseBodyBuffer,
      responseTime = responseTime_of d,
      responseStatusCode = response_responseStatusCode response\<rparr>"

text \<open>
  The handler of \<open>requestfinished\<close>, run to its end on one finished exchange. It returns
  the exception that ended it, if any, and the observer's state.
\<close>

definition requestfinished ::
  "'n::{one,plus,minus,ord} networkTraffic \<Rightarrow> 'n data \<Rightarrow> ('n, string) observer
     \<Rightarrow> js_error option \<times> ('n, string) observer" where
  "requestfinished cfg d obs =
     (case data_response d of
        Inl e \<Rightarrow> (Some TypeError, obs\<lparr>logged := logged obs @ catch_response e\<rparr>)
      | Inr response \<Rightarrow>
          let url = data_url d;
              statusCode = response_status response;
              responseTime = responseTime_of d;
              cd = collectedData obs;
              oi = overallInformation cd;
              cd1 = (if matchesURLQuery cfg url
                     then cd\<lparr>overallInformation :=
                            oi\<lparr>totalRequests := totalRequests oi + 1,
                               totalTime := totalTime oi + responseTime\<rparr>\<rparr>
                     else cd)
          in if matchesURLQuery cfg url \<and>
                (statusCode \<noteq> 200 \<or> responseTime > threshold_ms cfg)
             then
               let responseBodyBuffer = response_body response;
                   warned = (case responseBodyBuffer of
                               None \<Rightarrow> [Warn_could_not_get_response_Buffer url]
                             | Some b \<Rightarrow> [])
               in (None,
                   \<lparr>collectedData =
                      cd1\<lparr>requests := requests cd1 @ [dataObject d response responseBodyBuffer]\<rparr>,
                    logged = logged obs @ warned\<rparr>)
             else (None, obs\<lparr>collectedData := cd1\<rparr>))"

text \<open>The decimal digits of a number, for \<open>Date.now()\<close> in the file name.\<close>

fun show_nat :: "nat \<Rightarrow> string" where
  "show_nat n =
     (if n < 10 then [''0123456789'' ! n]
      else show_nat (n div 10) @ [''0123456789'' ! (n mod 10)])"

declare show_nat.simps [simp del]

definition fileName :: "string \<Rightarrow> nat \<Rightarrow> string" where
  "fileName role now = role @ ''_metrics_report_'' @ show_nat now @ ''.json''"

text \<open>
  The handler of \<open>close\<close>. It returns the file it writes into the trace store, if it
  writes one: the name and the collected data that are serialised into it.
\<close>

definition close ::
  "string \<Rightarrow> ('n::inverse, 'b) observer
     \<Rightarrow> (string \<times> ('n, 'b) CollectedData) option \<times> ('n, 'b) observer" where
  "close fname obs =
     (let cd = collectedData obs; oi = overallInformation cd
      in case requests cd of
           _ # _ \<Rightarrow>
             let cd' = cd\<lparr>overallInformation :=
                          oi\<lparr>avgResponseTime := totalTime oi / totalRequests oi\<rparr>\<rparr>
             in (Some (fname, cd'),
                 \<lparr>collectedData = cd',
                  logged = logged obs @ [Info_saving_started, Success_metrics_saved fname]\<rparr>)
         | [] \<Rightarrow> (None, obs\<lparr>logged := logged obs @ [Info_no_data_to_save]\<rparr>))"

text \<open>
  A session: the handler of \<open>requestfinished\<close> runs on each finished exchange, each run
  to its end before the next event, and then the handler of \<open>close\<close> runs once.
\<close>

definition observe ::
  "'n::{one,plus,minus,ord} networkTraffic \<Rightarrow> ('n, string) observer \<Rightarrow> 'n data list
     \<Rightarrow> ('n, string) observer" where
  "observe cfg obs ds = foldl (\<lambda>s d. snd (requestfinished cfg d s)) obs ds"

definition monitorNetworkTraffic ::
  "'n::{zero,one,plus,minus,inverse,ord} networkTraffic \<Rightarrow> string \<Rightarrow> nat \<Rightarrow> 'n data list
     \<Rightarrow> (string \<times> ('n, string) CollectedData) option \<times> ('n, string) observer" where
  "monitorNetworkTraffic cfg role now ds =
     close (fileName role now)
       (observe cfg \<lparr>collectedData = initialData, logged = []\<rparr> ds)"

text \<open>
  The two conditions of the handler as predicates of a finished exchange: \<open>counted\<close> is
  the condition of the first \<open>if\<close> (the counters change), \<open>recorded\<close> that of the
  second (a record is pushed). Neither holds of an exchange whose \<open>data.response()\<close>
  gave no response object, which has no status code and ends the handler before both.
\<close>

definition counted :: "'n networkTraffic \<Rightarrow> 'n data \<Rightarrow> bool" where
  "counted cfg d =
     (case data_response d of
        Inl e \<Rightarrow> False
      | Inr response \<Rightarrow> matchesURLQuery cfg (data_url d))"

definition recorded :: "'n::{minus,ord} networkTraffic \<Rightarrow> 'n data \<Rightarrow> bool" where
  "recorded cfg d =
     (case data_response d of
        Inl e \<Rightarrow> False
      | Inr response \<Rightarrow>
          matchesURLQuery cfg (data_url d) \<and>
          (response_status response \<noteq> 200 \<or> responseTime_of d > threshold_ms cfg))"

text \<open>The records the handler pushes for an exchange: one or none.\<close>

definition pushed :: "'n::{minus,ord} networkTraffic \<Rightarrow> 'n data \<Rightarrow> ('n, string) RequestData list" where
  "pushed cfg d =
     (case data_response d of
        Inl e \<Rightarrow> []
      | Inr response \<Rightarrow>
          if recorded cfg d then [dataObject d response (response_body response)] else [])"

subsection \<open>Plain objects\<close>

text \<open>
  A plain JavaScript object with string keys is the list of its own properties in the
  order of their creation: \<open>map_of\<close> reads a property, \<open>AList.update\<close> assigns one (in
  place when the key is there, at the end when it is new). \<open>Object.keys\<close> and \<open>for-in\<close>
  do not follow the creation order alone: the keys that are array indices (the canonical
  decimal numerals below \<open>2^32 - 1\<close>) come first, in ascending numeric order, and the
  other keys follow in creation order.

  A read of a key that is not an own property finds the properties every object
  inherits from \<open>Object.prototype\<close>; their values are functions or objects, so the read
  is truthy, and reading a property of a property of such a value throws.
\<close>

type_synonym 'v object = "(string \<times> 'v) list"

definition inherited :: "string \<Rightarrow> bool" where
  "inherited k \<longleftrightarrow>
     k \<in> set [''constructor'', ''__proto__'', ''hasOwnProperty'', ''isPrototypeOf'',
              ''propertyIsEnumerable'', ''toLocaleString'', ''toString'', ''valueOf'',
              ''__defineGetter__'', ''__defineSetter__'', ''__lookupGetter__'',
              ''__lookupSetter__'']"

definition digit_of :: "char \<Rightarrow> nat option" where
  "digit_of c =
     map_of [(CHR ''0'', 0), (CHR ''1'', 1), (CHR ''2'', 2), (CHR ''3'', 3), (CHR ''4'', 4),
             (CHR ''5'', 5), (CHR ''6'', 6), (CHR ''7'', 7), (CHR ''8'', 8), (CHR ''9'', 9)] c"

fun digits_value :: "nat \<Rightarrow> string \<Rightarrow> nat option" where
  "digits_value acc [] = Some acc"
| "digits_value acc (c # cs) =
     (case digit_of c of None \<Rightarrow> None | Some v \<Rightarrow> digits_value (10 * acc + v) cs)"

definition array_index :: "string \<Rightarrow> nat option" where
  "array_index k =
     (case k of
        [] \<Rightarrow> None
      | c # cs \<Rightarrow>
          if c = CHR ''0'' \<and> cs \<noteq> [] then None
          else (case digits_value 0 k of
                  None \<Rightarrow> None
                | Some n \<Rightarrow> if n < 4294967295 then Some n else None))"

definition ownKeys :: "'v object \<Rightarrow> string list" where
  "ownKeys obj =
     (let ks = remdups (map fst obj)
      in sort_key (\<lambda>k. case array_index k of Some n \<Rightarrow> n | None \<Rightarrow> 0)
           (filter (\<lambda>k. array_index k \<noteq> None) ks) @
         filter (\<lambda>k. array_index k = None) ks)"

definition entries :: "'v object \<Rightarrow> (string \<times> 'v) list" where
  "entries obj = List.map_filter (\<lambda>k. map_option (Pair k) (map_of obj k)) (ownKeys obj)"

text \<open>
  An object keyed by numbers (\<open>Record<number, number>\<close>) is the list of its properties
  with the numbers as keys; a number below \<open>2^32 - 1\<close> is an array index.
\<close>

definition numberKeys :: "(nat \<times> 'v) list \<Rightarrow> nat list" where
  "numberKeys obj =
     (let ks = remdups (map fst obj)
      in sort (filter (\<lambda>k. k < 4294967295) ks) @ filter (\<lambda>k. \<not> k < 4294967295) ks)"

text \<open>\<open>Array.prototype.reduce\<close> without an initial value; on an empty array it throws.\<close>

fun reduce :: "('a \<Rightarrow> 'a \<Rightarrow> 'a) \<Rightarrow> 'a list \<Rightarrow> js_error + 'a" where
  "reduce f [] = Inl TypeError"
| "reduce f (x # xs) = Inr (foldl f x xs)"

subsection \<open>The merged report\<close>

text \<open>
  A trace file as \<open>JSON.parse\<close> returns it; the code tests \<open>metrics.requests\<close> for
  absence. The trace store is the listing of its directory, each name with the result
  of parsing the file's contents, \<open>None\<close> when \<open>JSON.parse\<close> throws; a missing directory
  is \<open>None\<close>. The entries of the directory are readable files.
\<close>

record ('n, 'b) metrics =
  metrics_overallInformation :: "'n overallInformation"
  metrics_requests :: "('n, 'b) RequestData list option"

type_synonym ('n, 'b) store = "(string \<times> ('n, 'b) metrics option) list option"

text \<open>
  A request as the merge copies it into a bucket: the merge copies only requests whose
  \<open>responseBody\<close> is not \<open>null\<close> or \<open>undefined\<close>, and it sets \<open>responseStatusCode\<close> to
  the request's \<open>statusCode\<close>, so both are present in a bucket.
\<close>

record ('n, 'b) MergedRequest =
  m_statusCode :: nat
  m_requestUrl :: string
  m_requestHeaders :: headers
  m_requestBody :: "requestBody option"
  m_responseUrl :: string
  m_responseHeaders :: headers
  m_responseBody :: 'b
  m_responseTime :: 'n
  m_responseStatusCode :: nat

record ('n, 'b) role_entry =
  role_overallInformation :: "'n overallInformation"
  gql_operations :: "('n, 'b) MergedRequest list object"
  rest_requests :: "('n, 'b) MergedRequest list"

text \<open>
  An \<open>ErrorSummary\<close>. \<open>mostCommonStatusCode\<close> is \<open>null\<close>, a number, or a key of the
  frequency map, which is the string of a number; \<open>allStatusCodes\<close> is a number or an
  array of numbers. An entry of \<open>errors.gql\<close> is the empty object \<open>{}\<close> before the
  summary is assigned.
\<close>

datatype status_value = Null | Num nat | Key nat

datatype all_codes = Single nat | Listed "nat list"

record ErrorSummary =
  count :: nat
  mostCommonStatusCode :: status_value
  allStatusCodes :: all_codes

datatype gql_entry = Empty_object | Summary ErrorSummary

text \<open>
  The object \<open>errors\<close>: its properties \<open>gql\<close> and \<open>rest\<close>, and its other own
  properties, of which the code creates none.
\<close>

record errors =
  errors_gql :: "gql_entry object"
  errors_rest :: "ErrorSummary object"
  errors_other :: "nat list object"

record ('n, 'b) mergedMetrics =
  roles :: "('n, 'b) role_entry object"
  errors :: "errors option"

subsection \<open>The merge: mergeNetworkTraces\<close>

text \<open>\<open>file.split('_')[0]\<close>\<close>

definition role_of :: "string \<Rightarrow> string" where
  "role_of file = takeWhile (\<lambda>c. c \<noteq> CHR ''_'') file"

text \<open>The object literal pushed into a bucket.\<close>

definition copy_request :: "('n, 'b) RequestData \<Rightarrow> 'b \<Rightarrow> ('n, 'b) MergedRequest" where
  "copy_request request body =
     \<lparr>m_statusCode = statusCode request,
      m_requestUrl = requestUrl request,
      m_requestHeaders = requestHeaders request,
      m_requestBody = requestBody request,
      m_responseUrl = responseUrl request,
      m_responseHeaders = responseHeaders request,
      m_responseBody = body,
      m_responseTime = responseTime request,
      m_responseStatusCode = statusCode request\<rparr>"

text \<open>
  The body of the loop over \<open>metrics.requests\<close>, on the log and the object
  \<open>mergedMetrics.roles\<close>; it returns the log and the new object, or the exception that
  ends the merge. \<open>mergedMetrics.roles[role]\<close> is an own property unless \<open>role\<close> is an
  inherited name, for which the seeding was skipped and \<open>.gql.operations\<close> and
  \<open>.rest.requests\<close> throw; \<open>operations[name]\<close> of an inherited name is truthy, no
  bucket is created and \<open>.requests.push\<close> throws.
\<close>

definition merge_request ::
  "string \<Rightarrow> ('n, 'b) RequestData \<Rightarrow> log_entry list \<Rightarrow> ('n, 'b) role_entry object
     \<Rightarrow> log_entry list \<times> (js_error + ('n, 'b) role_entry object)" where
  "merge_request role request lg rs =
     (case responseBody request of
        None \<Rightarrow> (lg @ [Warn_requests_with_no_response_bodies], Inr rs)
      | Some body \<Rightarrow>
          if str_includes (requestUrl request) ''graphql'' then
            (case requestBody request of
               None \<Rightarrow> (lg, Inr rs)
             | Some rb \<Rightarrow>
                 (case map_of rs role of
                    None \<Rightarrow> (lg, Inl TypeError)
                  | Some entry \<Rightarrow>
                      (case map_of (gql_operations entry) (operationName rb) of
                         None \<Rightarrow>
                           if inherited (operationName rb) then (lg, Inl TypeError)
                           else (lg, Inr (AList.update role
                                  (entry\<lparr>gql_operations :=
                                     AList.update (operationName rb)
                                       [copy_request request body]
                                       (gql_operations entry)\<rparr>) rs))
                       | Some bucket \<Rightarrow>
                           (lg, Inr (AList.update role
                                  (entry\<lparr>gql_operations :=
                                     AList.update (operationName rb)
                                       (bucket @ [copy_request request body])
                                       (gql_operations entry)\<rparr>) rs)))))
          else
            (case map_of rs role of
               None \<Rightarrow> (lg, Inl TypeError)
             | Some entry \<Rightarrow>
                 (lg, Inr (AList.update role
                        (entry\<lparr>rest_requests :=
                           rest_requests entry @ [copy_request request body]\<rparr>) rs))))"

fun merge_requests ::
  "string \<Rightarrow> ('n, 'b) RequestData list \<Rightarrow> log_entry list \<Rightarrow> ('n, 'b) role_entry object
     \<Rightarrow> log_entry list \<times> (js_error + ('n, 'b) role_entry object)" where
  "merge_requests role [] lg rs = (lg, Inr rs)"
| "merge_requests role (request # reqs) lg rs =
     (case merge_request role request lg rs of
        (lg', Inl e) \<Rightarrow> (lg', Inl e)
      | (lg', Inr rs') \<Rightarrow> merge_requests role reqs lg' rs')"

text \<open>The callback of \<open>files.forEach\<close>, on one file of the store.\<close>

definition merge_file ::
  "string \<times> ('n, 'b) metrics option \<Rightarrow> log_entry list \<Rightarrow> ('n, 'b) role_entry object
     \<Rightarrow> log_entry list \<times> (js_error + ('n, 'b) role_entry object)" where
  "merge_file f lg rs =
     (case snd f of
        None \<Rightarrow> (lg @ [Warn_cannot_parse (fst f)], Inr rs)
      | Some metrics \<Rightarrow>
          let role = role_of (fst f);
              rs1 = (if map_of rs role = None \<and> \<not> inherited role
                     then AList.update role
                            \<lparr>role_overallInformation = metrics_overallInformation metrics,
                             gql_operations = [],
                             rest_requests = []\<rparr> rs
                     else rs)
          in (case metrics_requests metrics of
                None \<Rightarrow> (lg @ [Warn_no_requests_found], Inr rs1)
              | Some reqs \<Rightarrow> merge_requests role reqs lg rs1))"

fun merge_files ::
  "(string \<times> ('n, 'b) metrics option) list \<Rightarrow> log_entry list \<Rightarrow> ('n, 'b) role_entry object
     \<Rightarrow> log_entry list \<times> (js_error + ('n, 'b) role_entry object)" where
  "merge_files [] lg rs = (lg, Inr rs)"
| "merge_files (f # files) lg rs =
     (case merge_file f lg rs of
        (lg', Inl e) \<Rightarrow> (lg', Inl e)
      | (lg', Inr rs') \<Rightarrow> merge_files files lg' rs')"

subsection \<open>The error classifier: extendJsonWithErrors\<close>

text \<open>
  Two operations of the language on response bodies are parameters of the classifier:
  \<open>truthy\<close>, the test \<open>if (request.responseBody)\<close>, and \<open>stringify\<close>, the function
  \<open>JSON.stringify\<close>.

  The predicate of the \<open>filter\<close> callback, which is also the value of \<open>hasError\<close>:
\<close>

definition is_error :: "('b \<Rightarrow> string) \<Rightarrow> ('n, 'b) MergedRequest \<Rightarrow> bool" where
  "is_error stringify request \<longleftrightarrow>
     str_includes (stringify (m_responseBody request)) ''error'' \<or>
     m_responseStatusCode request \<noteq> 200"

text \<open>\<open>statusCodeCounts[statusCode] = (statusCodeCounts[statusCode] || 0) + 1\<close>\<close>

definition count_status :: "(nat \<times> nat) list \<Rightarrow> nat \<Rightarrow> (nat \<times> nat) list" where
  "count_status statusCodeCounts c =
     AList.update c ((case map_of statusCodeCounts c of None \<Rightarrow> 0 | Some n \<Rightarrow> n) + 1)
       statusCodeCounts"

text \<open>
  \<open>(a, b) => statusCodeCounts[a] > statusCodeCounts[b] ? a : b\<close>; a comparison with
  \<open>undefined\<close> is false.
\<close>

definition more_frequent :: "(nat \<times> nat) list \<Rightarrow> nat \<Rightarrow> nat \<Rightarrow> nat" where
  "more_frequent statusCodeCounts a b =
     (case (map_of statusCodeCounts a, map_of statusCodeCounts b) of
        (Some x, Some y) \<Rightarrow> if x > y then a else b
      | _ \<Rightarrow> b)"

text \<open>
  \<open>mostCommonStatusCode\<close> as both paths compute it from the frequency map: \<open>null\<close>, or
  the reduction over \<open>Object.keys(statusCodeCounts)\<close>.
\<close>

definition most_common :: "(nat \<times> nat) list \<Rightarrow> js_error + status_value" where
  "most_common statusCodeCounts =
     (let keys = numberKeys statusCodeCounts
      in if length keys > 0
         then (case reduce (more_frequent statusCodeCounts) keys of
                 Inl e \<Rightarrow> Inl e
               | Inr k \<Rightarrow> Inr (Key k))
         else Inr Null)"

text \<open>
  The array \<open>errorStatusCodesArray\<close> of an operation, and the summary the remote-call
  path assigns to \<open>errors.gql[operationName]\<close>, from the requests of the operation, or
  the exception thrown while it is computed.
\<close>

definition errorStatusCodesArray ::
  "('b \<Rightarrow> string) \<Rightarrow> ('n, 'b) MergedRequest list \<Rightarrow> nat list" where
  "errorStatusCodesArray stringify operation_requests =
     map m_responseStatusCode (filter (is_error stringify) operation_requests)"

definition gql_summary ::
  "('b \<Rightarrow> string) \<Rightarrow> ('n, 'b) MergedRequest list \<Rightarrow> js_error + ErrorSummary" where
  "gql_summary stringify operation_requests =
     (let codes = errorStatusCodesArray stringify operation_requests;
          statusCodeCounts = foldl count_status [] codes
      in case most_common statusCodeCounts of
           Inl e \<Rightarrow> Inl e
         | Inr mostCommon \<Rightarrow>
             (case reduce (more_frequent statusCodeCounts) codes of
                Inl e \<Rightarrow> Inl e
              | Inr c \<Rightarrow>
                  Inr \<lparr>count = length codes,
                       mostCommonStatusCode = mostCommon,
                       allStatusCodes = Single c\<rparr>))"

text \<open>\<open>key in updatedJson.errors\<close>\<close>

definition in_errors :: "errors \<Rightarrow> string \<Rightarrow> bool" where
  "in_errors errs k \<longleftrightarrow>
     k = ''gql'' \<or> k = ''rest'' \<or> map_of (errors_other errs) k \<noteq> None \<or> inherited k"

text \<open>
  The body of the loop over the requests of one operation. An exception in the \<open>try\<close>
  block is caught and the loop continues, with the empty object left behind if it was
  assigned. An assignment to \<open>errors.gql[operationName]\<close> creates or replaces an own
  property, except for the name \<open>__proto__\<close>, for which it sets the prototype of
  \<open>errors.gql\<close> and leaves the own properties as they are.
\<close>

definition gql_request ::
  "('b \<Rightarrow> bool) \<Rightarrow> ('b \<Rightarrow> string) \<Rightarrow> string \<Rightarrow> ('n, 'b) MergedRequest list
     \<Rightarrow> errors \<Rightarrow> ('n, 'b) MergedRequest \<Rightarrow> errors" where
  "gql_request truthy stringify name operation_requests errs request =
     (if truthy (m_responseBody request) then
        if is_error stringify request then
          let errs1 = (if \<not> in_errors errs name
                       then errs\<lparr>errors_gql :=
                              AList.update name Empty_object (errors_gql errs)\<rparr>
                       else errs)
          in (case gql_summary stringify operation_requests of
                Inl e \<Rightarrow> errs1
              | Inr summary \<Rightarrow>
                  if name = ''__proto__'' then errs1
                  else errs1\<lparr>errors_gql :=
                         AList.update name (Summary summary) (errors_gql errs1)\<rparr>)
        else errs
      else errs)"

definition gql_operation ::
  "('b \<Rightarrow> bool) \<Rightarrow> ('b \<Rightarrow> string) \<Rightarrow> errors \<Rightarrow> string \<times> ('n, 'b) MergedRequest list
     \<Rightarrow> errors" where
  "gql_operation truthy stringify errs operation =
     foldl (gql_request truthy stringify (fst operation) (snd operation)) errs (snd operation)"

text \<open>
  The loop over the requests of an operation assigns a summary when one of them passes
  both tests, \<open>if (request.responseBody)\<close> and \<open>if (hasError)\<close>.
\<close>

definition triggers ::
  "('b \<Rightarrow> bool) \<Rightarrow> ('b \<Rightarrow> string) \<Rightarrow> ('n, 'b) MergedRequest list \<Rightarrow> bool" where
  "triggers truthy stringify operation_requests \<longleftrightarrow>
     list_ex (\<lambda>request. truthy (m_responseBody request) \<and> is_error stringify request)
       operation_requests"

text \<open>
  The body of the loop over \<open>role.rest.requests\<close>. For an inherited name
  \<open>errors.rest[url]\<close> is truthy and \<open>.allStatusCodes.forEach\<close> throws. The key
  \<open>rest-url\<close> is neither \<open>gql\<close> nor \<open>rest\<close> nor inherited, so \<open>errors[rest-url]\<close> reads
  the other own properties; \<open>[...new Set(x)]\<close> is empty for \<open>undefined\<close> and keeps,
  of an array, the first occurrence of each value.
\<close>

definition rest_request ::
  "('n, 'b) MergedRequest \<Rightarrow> errors \<Rightarrow> js_error + errors" where
  "rest_request request errs =
     (if m_responseStatusCode request \<noteq> 200 then
        (case map_of (errors_rest errs) (m_requestUrl request) of
           None \<Rightarrow>
             if inherited (m_requestUrl request) then Inl TypeError
             else Inr (errs\<lparr>errors_rest :=
                    AList.update (m_requestUrl request)
                      \<lparr>count = 1,
                       mostCommonStatusCode = Num (m_responseStatusCode request),
                       allStatusCodes = Listed [m_responseStatusCode request]\<rparr>
                      (errors_rest errs)\<rparr>)
         | Some summary \<Rightarrow>
             (case allStatusCodes summary of
                Single c \<Rightarrow> Inl TypeError
              | Listed codes \<Rightarrow>
                  (case most_common (foldl count_status [] codes) of
                     Inl e \<Rightarrow> Inl e
                   | Inr mostCommon \<Rightarrow>
                       Inr (errs\<lparr>errors_rest :=
                         AList.update (m_requestUrl request)
                           \<lparr>count = count summary + 1,
                            mostCommonStatusCode = mostCommon,
                            allStatusCodes =
                              Listed (case map_of (errors_other errs)
                                             (''rest-'' @ m_requestUrl request) of
                                        None \<Rightarrow> []
                                      | Some xs \<Rightarrow> rev (remdups (rev xs)))\<rparr>
                           (errors_rest errs)\<rparr>))))
      else Inr errs)"

fun rest_loop :: "('n, 'b) MergedRequest list \<Rightarrow> errors \<Rightarrow> js_error + errors" where
  "rest_loop [] errs = Inr errs"
| "rest_loop (request # reqs) errs =
     (case rest_request request errs of
        Inl e \<Rightarrow> Inl e
      | Inr errs' \<Rightarrow> rest_loop reqs errs')"

text \<open>
  The body of the loop over the roles, the loop, and the function: the copy
  \<open>JSON.parse(JSON.stringify(initialJson))\<close> is the report itself, and the roles are
  visited in the order of \<open>for-in\<close>.
\<close>

definition classify_role ::
  "('b \<Rightarrow> bool) \<Rightarrow> ('b \<Rightarrow> string) \<Rightarrow> ('n, 'b) role_entry \<Rightarrow> errors \<Rightarrow> js_error + errors" where
  "classify_role truthy stringify role errs =
     rest_loop (rest_requests role)
       (foldl (gql_operation truthy stringify) errs (entries (gql_operations role)))"

fun roles_loop ::
  "('b \<Rightarrow> bool) \<Rightarrow> ('b \<Rightarrow> string) \<Rightarrow> ('n, 'b) role_entry list \<Rightarrow> errors
     \<Rightarrow> js_error + errors" where
  "roles_loop truthy stringify [] errs = Inr errs"
| "roles_loop truthy stringify (role # more_roles) errs =
     (case classify_role truthy stringify role errs of
        Inl e \<Rightarrow> Inl e
      | Inr errs' \<Rightarrow> roles_loop truthy stringify more_roles errs')"

definition extendJsonWithErrors ::
  "('b \<Rightarrow> bool) \<Rightarrow> ('b \<Rightarrow> string) \<Rightarrow> ('n, 'b) mergedMetrics
     \<Rightarrow> js_error + ('n, 'b) mergedMetrics" where
  "extendJsonWithErrors truthy stringify initialJson =
     (let errs0 = (case errors initialJson of
                     None \<Rightarrow> \<lparr>errors_gql = [], errors_rest = [], errors_other = []\<rparr>
                   | Some e \<Rightarrow> e)
      in case roles_loop truthy stringify (map snd (entries (roles initialJson))) errs0 of
           Inl e \<Rightarrow> Inl e
         | Inr errs \<Rightarrow> Inr (initialJson\<lparr>errors := Some errs\<rparr>))"

text \<open>
  The whole of \<open>mergeNetworkTraces\<close>, on the trace store: the log, and either the
  exception that ends the call or the report that is written, after which the files of
  the store and the store itself are removed. When \<open>readdirSync\<close> throws, a warning is
  logged and \<open>files\<close> stays \<open>undefined\<close>; \<open>files.forEach\<close> then throws.
\<close>

definition mergeNetworkTraces ::
  "('b \<Rightarrow> bool) \<Rightarrow> ('b \<Rightarrow> string) \<Rightarrow> ('n, 'b) store
     \<Rightarrow> log_entry list \<times> (js_error + ('n, 'b) mergedMetrics)" where
  "mergeNetworkTraces truthy stringify store =
     (case store of
        None \<Rightarrow>
          ([Info_merging_network_metrics, Warn_metrics_folder_not_found], Inl TypeError)
      | Some files \<Rightarrow>
          (case merge_files files [Info_merging_network_metrics] [] of
             (lg, Inl e) \<Rightarrow> (lg, Inl e)
           | (lg, Inr rs) \<Rightarrow>
               (lg @ [Info_gathering_errors],
                extendJsonWithErrors truthy stringify \<lparr>roles = rs, errors = None\<rparr>)))"

subsection \<open>Notions of the statements about the merge and the classifier\<close>

text \<open>No operation of a role has an inherited name.\<close>

definition no_inherited_names :: "('n, 'b) role_entry object \<Rightarrow> bool" where
  "no_inherited_names rs \<longleftrightarrow>
     (\<forall>role entry name bucket.
        map_of rs role = Some entry \<and> map_of (gql_operations entry) name = Some bucket
          \<longrightarrow> \<not> inherited name)"

text \<open>The summary of an operation of a role, if the loop over its requests assigns one.\<close>

definition assigned ::
  "('b \<Rightarrow> bool) \<Rightarrow> ('b \<Rightarrow> string) \<Rightarrow> string \<Rightarrow> ('n, 'b) MergedRequest list object
     \<Rightarrow> gql_entry option" where
  "assigned truthy stringify name operations =
     (case map_of operations name of
        None \<Rightarrow> None
      | Some operation_requests \<Rightarrow>
          if name \<noteq> ''__proto__'' \<and> triggers truthy stringify operation_requests
          then (case gql_summary stringify operation_requests of
                  Inl e \<Rightarrow> None | Inr summary \<Rightarrow> Some (Summary summary))
          else None)"

text \<open>The erroring status codes of the resource requests of a URL, in order.\<close>

definition rest_codes :: "string \<Rightarrow> ('n, 'b) MergedRequest list \<Rightarrow> nat list" where
  "rest_codes url reqs =
     map m_responseStatusCode
       (filter (\<lambda>request. m_requestUrl request = url \<and> m_responseStatusCode request \<noteq> 200) reqs)"

text \<open>The closed form of the entry of a URL, from its erroring status codes.\<close>

fun rest_expected :: "nat list \<Rightarrow> ErrorSummary option" where
  "rest_expected [] = None"
| "rest_expected [c] =
     Some \<lparr>count = 1, mostCommonStatusCode = Num c, allStatusCodes = Listed [c]\<rparr>"
| "rest_expected [c, d] =
     Some \<lparr>count = 2, mostCommonStatusCode = Key c, allStatusCodes = Listed []\<rparr>"
| "rest_expected (c # d # cs) =
     Some \<lparr>count = length (c # d # cs), mostCommonStatusCode = Null, allStatusCodes = Listed []\<rparr>"

definition rest_inv :: "errors \<Rightarrow> ('n, 'b) MergedRequest list \<Rightarrow> bool" where
  "rest_inv errs reqs \<longleftrightarrow>
     errors_other errs = [] \<and>
     (\<forall>url. map_of (errors_rest errs) url = rest_expected (rest_codes url reqs))"

subsection \<open>Concrete inputs\<close>

definition example_cfg :: "real networkTraffic" where
  "example_cfg = \<lparr>URLQuery = [''graphql''], threshold_ms = 2000\<rparr>"

definition example_response :: "nat \<Rightarrow> string option \<Rightarrow> response" where
  "example_response st b =
     \<lparr>response_status = st, response_url = ''https://shop.example/graphql'',
      response_allHeaders = [], response_body = b, response_responseStatusCode = None\<rparr>"

definition example_data :: "string \<Rightarrow> nat \<Rightarrow> real \<Rightarrow> string option \<Rightarrow> real data" where
  "example_data u st t b =
     \<lparr>data_response = Inr (example_response st b), data_url = u,
      data_timing = \<lparr>requestStart = 10, responseEnd = 10 + t\<rparr>,
      data_allHeaders = [], data_postDataJSON = None\<rparr>"

definition example_observer :: "(real, string) observer" where
  "example_observer = \<lparr>collectedData = initialData, logged = []\<rparr>"

definition example_fast :: "real data" where
  "example_fast = example_data ''https://shop.example/graphql'' 200 1000 (Some ''{}'')"

definition example_slow :: "real data" where
  "example_slow = example_data ''https://shop.example/graphql'' 200 3000 (Some ''{}'')"

definition example_session :: "real data list" where
  "example_session =
     [example_fast, example_fast, example_slow, example_fast, example_fast,
      example_data ''https://shop.example/logo.png'' 404 5000 None,
      example_fast, example_fast, example_slow, example_fast, example_fast]"

definition example_truthy :: "string \<Rightarrow> bool" where
  "example_truthy body \<longleftrightarrow> body \<noteq> []"

definition example_stringify :: "string \<Rightarrow> string" where
  "example_stringify body = [CHR 0x22] @ body @ [CHR 0x22]"

definition example_request :: "string \<Rightarrow> nat \<Rightarrow> (real, string) MergedRequest" where
  "example_request u st =
     \<lparr>m_statusCode = st, m_requestUrl = u, m_requestHeaders = [],
      m_requestBody = None, m_responseUrl = u, m_responseHeaders = [],
      m_responseBody = ''ok'', m_responseTime = 25, m_responseStatusCode = st\<rparr>"

definition example_overall :: "real \<Rightarrow> real overallInformation" where
  "example_overall n =
     \<lparr>avgResponseTime = 100, totalRequests = n, totalTime = 100 * n, contextTime = 0\<rparr>"

definition example_role ::
  "(real, string) MergedRequest list object \<Rightarrow> (real, string) MergedRequest list
     \<Rightarrow> (real, string) role_entry" where
  "example_role ops rest =
     \<lparr>role_overallInformation = example_overall 5, gql_operations = ops, rest_requests = rest\<rparr>"

definition example_record :: "string \<Rightarrow> nat \<Rightarrow> string \<Rightarrow> (real, string) RequestData" where
  "example_record u st name =
     \<lparr>statusCode = st, requestUrl = u, requestHeaders = [],
      requestBody = Some \<lparr>operationName = name\<rparr>, responseUrl = u, responseHeaders = [],
      responseBody = Some ''ok'', responseTime = 25, responseStatusCode = None\<rparr>"

definition example_call :: "string \<Rightarrow> nat \<Rightarrow> (real, string) MergedRequest" where
  "example_call name st =
     \<lparr>m_statusCode = st, m_requestUrl = ''https://shop.example/graphql'',
      m_requestHeaders = [], m_requestBody = Some \<lparr>operationName = name\<rparr>,
      m_responseUrl = ''https://shop.example/graphql'', m_responseHeaders = [],
      m_responseBody = ''ok'', m_responseTime = 25, m_responseStatusCode = st\<rparr>"

definition example_tie_roles :: "(real, string) role_entry object" where
  "example_tie_roles =
     [(''user'', example_role
        [(''GetCart'', [example_call ''GetCart'' 404, example_call ''GetCart'' 500])]
        [example_request ''/a'' 404, example_request ''/a'' 404, example_request ''/a'' 404])]"

definition example_last_roles :: "(real, string) role_entry object" where
  "example_last_roles =
     [(''user'', example_role
        [(''GetCart'', [example_call ''GetCart'' 500, example_call ''GetCart'' 404])]
        [example_request ''/cart'' 503, example_request ''/cart'' 503])]"

definition example_admin :: "(real, string) role_entry" where
  "example_admin =
     example_role [(''GetCart'', [example_call ''GetCart'' 500])] [example_request ''/a'' 404]"

definition example_user :: "(real, string) role_entry" where
  "example_user =
     example_role [(''GetCart'', [example_call ''GetCart'' 200])] [example_request ''/a'' 500]"

definition example_two_roles :: "(real, string) role_entry object" where
  "example_two_roles = [(''admin'', example_admin), (''user'', example_user)]"

definition example_tie_errors :: errors where
  "example_tie_errors =
     \<lparr>errors_gql =
        [(''GetCart'', Summary \<lparr>count = 2, mostCommonStatusCode = Key 500,
                                 allStatusCodes = Single 500\<rparr>)],
      errors_rest =
        [(''/a'', \<lparr>count = 3, mostCommonStatusCode = Null, allStatusCodes = Listed []\<rparr>)],
      errors_other = []\<rparr>"

definition example_last_errors :: errors where
  "example_last_errors =
     \<lparr>errors_gql =
        [(''GetCart'', Summary \<lparr>count = 2, mostCommonStatusCode = Key 500,
                                 allStatusCodes = Single 404\<rparr>)],
      errors_rest =
        [(''/cart'', \<lparr>count = 2, mostCommonStatusCode = Key 503, allStatusCodes = Listed []\<rparr>)],
      errors_other = []\<rparr>"

definition example_two_errors :: errors where
  "example_two_errors =
     \<lparr>errors_gql =
        [(''GetCart'', Summary \<lparr>count = 1, mostCommonStatusCode = Key 500,
                                 allStatusCodes = Single 500\<rparr>)],
      errors_rest =
        [(''/a'', \<lparr>count = 2, mostCommonStatusCode = Key 404, allStatusCodes = Listed []\<rparr>)],
      errors_other = []\<rparr>"

definition example_trace ::
  "real \<Rightarrow> (real, string) RequestData list \<Rightarrow> (real, string) metrics" where
  "example_trace n reqs =
     \<lparr>metrics_overallInformation = example_overall n, metrics_requests = Some reqs\<rparr>"

definition example_files :: "(string \<times> (real, string) metrics option) list" where
  "example_files =
     [(''user_metrics_report_1700000000000.json'',
       Some (example_trace 5 [example_record ''https://shop.example/graphql'' 500 ''GetCart''])),
      (''user_metrics_report_1700000000001.json'',
       Some (example_trace 8 [example_record ''https://shop.example/logo.png'' 404 ''GetCart'']))]"

definition example_entry :: "(real, string) role_entry" where
  "example_entry =
     \<lparr>role_overallInformation = example_overall 5,
      gql_operations =
        [(''GetCart'',
          [copy_request (example_record ''https://shop.example/graphql'' 500 ''GetCart'')
             ''ok''])],
      rest_requests =
        [copy_request (example_record ''https://shop.example/logo.png'' 404 ''GetCart'')
           ''ok'']\<rparr>"

definition example_report :: "(real, string) mergedMetrics" where
  "example_report =
     \<lparr>roles = [(''user'', example_entry)],
      errors =
        Some \<lparr>errors_gql =
                [(''GetCart'', Summary \<lparr>count = 1, mostCommonStatusCode = Key 500,
                                         allStatusCodes = Single 500\<rparr>)],
              errors_rest =
                [(''https://shop.example/logo.png'',
                  \<lparr>count = 1, mostCommonStatusCode = Num 404,
                   allStatusCodes = Listed [404]\<rparr>)],
              errors_other = []\<rparr>\<rparr>"

definition example_mixed_roles :: "(real, string) role_entry object" where
  "example_mixed_roles =
     [(''user'', example_role
        [(''GetCart'',
          [example_call ''GetCart'' 404,
           example_call ''GetCart'' 200,
           example_call ''GetCart'' 500,
           example_call ''GetCart'' 200,
           example_call ''GetCart'' 200])]
        [])]"

definition example_mixed_errors :: errors where
  "example_mixed_errors =
     \<lparr>errors_gql =
        [(''GetCart'', Summary \<lparr>count = 2, mostCommonStatusCode = Key 500,
                                 allStatusCodes = Single 500\<rparr>)],
      errors_rest = [],
      errors_other = []\<rparr>"

definition example_order_roles :: "(real, string) role_entry object" where
  "example_order_roles =
     [(''user'', example_role
        [(''GetCart'',
          [example_call ''GetCart'' 500,
           example_call ''GetCart'' 200,
           example_call ''GetCart'' 404,
           example_call ''GetCart'' 200,
           example_call ''GetCart'' 200])]
        [])]"

definition example_order_errors :: errors where
  "example_order_errors =
     \<lparr>errors_gql =
        [(''GetCart'', Summary \<lparr>count = 2, mostCommonStatusCode = Key 500,
                                 allStatusCodes = Single 404\<rparr>)],
      errors_rest = [],
      errors_other = []\<rparr>"

section \<open>The session observer\<close>

subsection \<open>The URL filter\<close>

text \<open>
  \<open>str_includes s q\<close> holds exactly when \<open>q\<close> occurs in \<open>s\<close> as a contiguous
  substring, so \<open>matchesURLQuery\<close> says that the URL contains at least one of the
  configured substrings.
\<close>

lemma startsWith_iff: "startsWith s q \<longleftrightarrow> (\<exists>ys. s = q @ ys)"
  unfolding startsWith_def
  by (metis append_eq_conv_conj append_take_drop_id)

lemma str_includes_iff: "str_includes s q \<longleftrightarrow> (\<exists>xs ys. s = xs @ q @ ys)"
proof (induction s)
  case Nil
  then show ?case by auto
next
  case (Cons c s)
  show ?case
  proof
    assume "str_includes (c # s) q"
    then consider "startsWith (c # s) q" | "str_includes s q" by auto
    then show "\<exists>xs ys. c # s = xs @ q @ ys"
    proof cases
      case 1
      then obtain ys where "c # s = q @ ys" by (auto simp: startsWith_iff)
      then have "c # s = [] @ q @ ys" by simp
      then show ?thesis by blast
    next
      case 2
      then obtain xs ys where "s = xs @ q @ ys" using Cons.IH by blast
      then have "c # s = (c # xs) @ q @ ys" by simp
      then show ?thesis by blast
    qed
  next
    assume "\<exists>xs ys. c # s = xs @ q @ ys"
    then obtain xs ys where e: "c # s = xs @ q @ ys" by blast
    show "str_includes (c # s) q"
    proof (cases xs)
      case Nil
      with e have "startsWith (c # s) q" by (auto simp: startsWith_iff)
      then show ?thesis by simp
    next
      case (Cons x xs')
      with e have "s = xs' @ q @ ys" by simp
      then have "str_includes s q" using Cons.IH by blast
      then show ?thesis by simp
    qed
  qed
qed

lemma matchesURLQuery_iff:
  "matchesURLQuery cfg url \<longleftrightarrow> (\<exists>query \<in> set (URLQuery cfg). \<exists>xs ys. url = xs @ query @ ys)"
  by (simp add: matchesURLQuery_def list_ex_iff str_includes_iff)

subsection \<open>One finished exchange\<close>

lemma requestfinished_rejected:
  "data_response d = Inl e \<Longrightarrow>
   requestfinished cfg d obs = (Some TypeError, obs\<lparr>logged := logged obs @ catch_response e\<rparr>)"
  by (simp add: requestfinished_def)

lemma requestfinished_requests:
  "requests (collectedData (snd (requestfinished cfg d obs))) =
   requests (collectedData obs) @ pushed cfg d"
  by (cases "data_response d")
     (simp_all add: requestfinished_def pushed_def recorded_def Let_def)

lemma requestfinished_totalRequests:
  "totalRequests (overallInformation (collectedData (snd (requestfinished cfg d obs)))) =
   (if counted cfg d then totalRequests (overallInformation (collectedData obs)) + 1
    else totalRequests (overallInformation (collectedData obs)))"
  by (cases "data_response d")
     (simp_all add: requestfinished_def counted_def Let_def)

lemma requestfinished_totalTime:
  "totalTime (overallInformation (collectedData (snd (requestfinished cfg d obs)))) =
   (if counted cfg d then totalTime (overallInformation (collectedData obs)) + responseTime_of d
    else totalTime (overallInformation (collectedData obs)))"
  by (cases "data_response d")
     (simp_all add: requestfinished_def counted_def Let_def)

lemma recorded_counted: "recorded cfg d \<Longrightarrow> counted cfg d"
  by (auto simp: recorded_def counted_def split: sum.splits)

lemma pushed_eq_Nil_iff: "pushed cfg d = [] \<longleftrightarrow> \<not> recorded cfg d"
  by (auto simp: pushed_def recorded_def split: sum.splits)

subsection \<open>A session\<close>

lemma observe_Nil: "observe cfg obs [] = obs"
  by (simp add: observe_def)

lemma observe_Cons: "observe cfg obs (d # ds) = observe cfg (snd (requestfinished cfg d obs)) ds"
  by (simp add: observe_def)

lemma observe_requests:
  "requests (collectedData (observe cfg obs ds)) =
   requests (collectedData obs) @ concat (map (pushed cfg) ds)"
  by (induction ds arbitrary: obs) (simp_all add: observe_Nil observe_Cons requestfinished_requests)

lemma observe_totalRequests:
  "totalRequests (overallInformation (collectedData (observe cfg obs ds))) =
   foldl (\<lambda>n d. n + 1) (totalRequests (overallInformation (collectedData obs)))
     (filter (counted cfg) ds)"
  by (induction ds arbitrary: obs)
     (simp_all add: observe_Nil observe_Cons requestfinished_totalRequests)

lemma observe_totalTime:
  "totalTime (overallInformation (collectedData (observe cfg obs ds))) =
   foldl (\<lambda>t d. t + responseTime_of d) (totalTime (overallInformation (collectedData obs)))
     (filter (counted cfg) ds)"
  by (induction ds arbitrary: obs)
     (simp_all add: observe_Nil observe_Cons requestfinished_totalTime)

subsection \<open>Which exchanges are recorded and which are counted\<close>

text \<open>
  Claim C1. The handler of \<open>requestfinished\<close>, from any state of the observer, appends
  a record to the trace if and only if the exchange has a response, its URL contains
  one of the \<open>URLQuery\<close> substrings and its status code is not 200 or its response time
  is strictly greater than \<open>threshold_ms\<close>; it appends at most one record, for the
  exchange's URL; and an exchange whose URL contains none of the substrings changes
  neither \<open>totalRequests\<close> nor \<open>totalTime\<close>.
\<close>

theorem requestfinished_record_iff:
  "((\<exists>rec. requests (collectedData (snd (requestfinished cfg d obs))) =
            requests (collectedData obs) @ [rec]) \<longleftrightarrow>
    (\<exists>response. data_response d = Inr response \<and> matchesURLQuery cfg (data_url d) \<and>
       (response_status response \<noteq> 200 \<or> responseTime_of d > threshold_ms cfg))) \<and>
   (requests (collectedData (snd (requestfinished cfg d obs))) = requests (collectedData obs) \<or>
    (\<exists>rec. requests (collectedData (snd (requestfinished cfg d obs))) =
            requests (collectedData obs) @ [rec] \<and> requestUrl rec = data_url d)) \<and>
   (\<not> matchesURLQuery cfg (data_url d) \<longrightarrow>
      totalRequests (overallInformation (collectedData (snd (requestfinished cfg d obs)))) =
        totalRequests (overallInformation (collectedData obs)) \<and>
      totalTime (overallInformation (collectedData (snd (requestfinished cfg d obs)))) =
        totalTime (overallInformation (collectedData obs)))"
proof (cases "data_response d")
  case (Inl e)
  then show ?thesis by (simp add: requestfinished_def)
next
  case (Inr response)
  then show ?thesis
    by (simp add: requestfinished_def Let_def dataObject_def)
qed

text \<open>The configuration of the repository: \<open>URLQuery: ['graphql']\<close>, \<open>threshold_ms: 2000\<close>.\<close>

lemma example_matches:
  "matchesURLQuery example_cfg ''https://shop.example/graphql''"
  "\<not> matchesURLQuery example_cfg ''https://shop.example/logo.png''"
  by (simp_all add: matchesURLQuery_def example_cfg_def startsWith_def)

text \<open>
  An image that fails (status 500) but does not match the filter leaves the counters at
  zero; a failing call of the remote-call endpoint is recorded.
\<close>

theorem requestfinished_record_iff_witness:
  "\<not> matchesURLQuery example_cfg (data_url (example_data ''https://shop.example/logo.png'' 500 3000 None)) \<and>
   totalRequests (overallInformation (collectedData (snd (requestfinished example_cfg
      (example_data ''https://shop.example/logo.png'' 500 3000 None) example_observer)))) = 0 \<and>
   (\<exists>rec. requests (collectedData (snd (requestfinished example_cfg
      (example_data ''https://shop.example/graphql'' 500 30 (Some ''{}'')) example_observer))) = [rec])"
  using requestfinished_record_iff [of example_cfg "example_data ''https://shop.example/logo.png'' 500 3000 None" example_observer]
    requestfinished_record_iff [of example_cfg "example_data ''https://shop.example/graphql'' 500 30 (Some ''{}'')" example_observer]
  by (simp add: example_matches example_data_def example_observer_def initialData_def example_response_def)

subsection \<open>A response body that cannot be read\<close>

text \<open>
  Claim C5 says that an exchange whose body cannot be read is not recorded. The code
  catches the failure of \<open>response.body()\<close>, logs the warning and goes on to build and
  push the record, whose \<open>responseBody\<close> stays \<open>undefined\<close>: here a failing call of
  the remote-call endpoint whose body cannot be read is recorded.
\<close>

theorem body_read_failure_counterexample:
  "data_response (example_data ''https://shop.example/graphql'' 500 30 None) =
     Inr (example_response 500 None) \<and>
   response_body (example_response 500 None) = None \<and>
   matchesURLQuery example_cfg ''https://shop.example/graphql'' \<and>
   requestfinished example_cfg (example_data ''https://shop.example/graphql'' 500 30 None)
     example_observer =
   (None,
    \<lparr>collectedData =
       \<lparr>overallInformation =
          \<lparr>avgResponseTime = 0, totalRequests = 1, totalTime = 30, contextTime = 0\<rparr>,
        requests =
          [\<lparr>statusCode = 500, requestUrl = ''https://shop.example/graphql'',
            requestHeaders = [], requestBody = None,
            responseUrl = ''https://shop.example/graphql'', responseHeaders = [],
            responseBody = None, responseTime = 30, responseStatusCode = None\<rparr>]\<rparr>,
     logged = [Warn_could_not_get_response_Buffer ''https://shop.example/graphql'']\<rparr>)"
  by (simp add: matchesURLQuery_def startsWith_def requestfinished_def example_data_def
      example_response_def example_observer_def initialData_def dataObject_def
      responseTime_of_def example_cfg_def Let_def)

text \<open>
  Claim C5, as the code has it. If reading the response body of a filter-matched,
  slow-or-failing exchange fails, the handler logs the warning and still appends the
  record of the exchange, with an absent \<open>responseBody\<close>, and ends without an
  exception.
\<close>

theorem requestfinished_body_read_failure:
  assumes "data_response d = Inr response"
    and "response_body response = None"
    and "matchesURLQuery cfg (data_url d)"
    and "response_status response \<noteq> 200 \<or> responseTime_of d > threshold_ms cfg"
  shows "fst (requestfinished cfg d obs) = None \<and>
         logged (snd (requestfinished cfg d obs)) =
           logged obs @ [Warn_could_not_get_response_Buffer (data_url d)] \<and>
         requests (collectedData (snd (requestfinished cfg d obs))) =
           requests (collectedData obs) @ [dataObject d response None] \<and>
         responseBody (dataObject d response None) = None"
  using assms by (simp add: requestfinished_def Let_def dataObject_def)

theorem requestfinished_body_read_failure_witness:
  "data_response (example_data ''https://shop.example/graphql'' 200 2500 None) =
     Inr (example_response 200 None) \<and>
   response_body (example_response 200 None) = None \<and>
   matchesURLQuery example_cfg (data_url (example_data ''https://shop.example/graphql'' 200 2500 None)) \<and>
   responseTime_of (example_data ''https://shop.example/graphql'' 200 2500 None) > threshold_ms example_cfg \<and>
   fst (requestfinished example_cfg (example_data ''https://shop.example/graphql'' 200 2500 None)
     example_observer) = None \<and>
   length (requests (collectedData (snd (requestfinished example_cfg
     (example_data ''https://shop.example/graphql'' 200 2500 None) example_observer)))) = 1"
proof -
  let ?d = "example_data ''https://shop.example/graphql'' 200 2500 None"
  have a: "data_response ?d = Inr (example_response 200 None)"
    by (simp add: example_data_def)
  have b: "response_body (example_response 200 None) = None"
    by (simp add: example_response_def)
  have c: "matchesURLQuery example_cfg (data_url ?d)"
    by (simp add: example_data_def example_matches)
  have d: "responseTime_of ?d > threshold_ms example_cfg"
    by (simp add: example_data_def responseTime_of_def example_cfg_def)
  from d have d': "response_status (example_response 200 None) \<noteq> 200 \<or>
      responseTime_of ?d > threshold_ms example_cfg" ..
  show ?thesis
    using a b c d requestfinished_body_read_failure [OF a b c d', of example_observer]
    by (simp add: example_observer_def initialData_def)
qed

subsection \<open>The trace file\<close>

lemma length_concat_pushed:
  "length (concat (map (pushed cfg) ds)) = length (filter (recorded cfg) ds)"
  by (induction ds) (auto simp: pushed_def recorded_def split: sum.splits)

lemma concat_pushed_eq_Nil_iff:
  "concat (map (pushed cfg) ds) = [] \<longleftrightarrow> filter (recorded cfg) ds = []"
  using length_concat_pushed [of cfg ds] by (metis length_0_conv)

lemma close_written:
  "fst (close fname obs) =
     (if requests (collectedData obs) = [] then None
      else Some (fname,
        (collectedData obs)\<lparr>overallInformation :=
           (overallInformation (collectedData obs))\<lparr>avgResponseTime :=
              totalTime (overallInformation (collectedData obs)) /
              totalRequests (overallInformation (collectedData obs))\<rparr>\<rparr>))"
  by (cases "requests (collectedData obs)") (simp_all add: close_def Let_def)

text \<open>
  Claim C2. At the end of a session a trace file is written if and only if at least
  one record was captured, that is, if the list of records of the observer is not empty
  at the end, which is the case if and only if some exchange of the session satisfies
  \<open>recorded\<close>. In a written trace \<open>avgResponseTime\<close> is \<open>totalTime / totalRequests\<close>,
  where \<open>totalTime\<close> adds the response times of all the exchanges that satisfy
  \<open>counted\<close> (the filter-matched ones) and \<open>totalRequests\<close> counts them, while the list
  of records has one record for each exchange that satisfies \<open>recorded\<close>.
\<close>

theorem monitorNetworkTraffic_trace:
  "(fst (monitorNetworkTraffic cfg role now ds) \<noteq> None \<longleftrightarrow>
      requests (collectedData (observe cfg \<lparr>collectedData = initialData, logged = []\<rparr> ds))
        \<noteq> []) \<and>
   (fst (monitorNetworkTraffic cfg role now ds) \<noteq> None \<longleftrightarrow>
      filter (recorded cfg) ds \<noteq> []) \<and>
   (\<forall>name cd. fst (monitorNetworkTraffic cfg role now ds) = Some (name, cd) \<longrightarrow>
      name = fileName role now \<and>
      avgResponseTime (overallInformation cd) =
        totalTime (overallInformation cd) / totalRequests (overallInformation cd) \<and>
      totalTime (overallInformation cd) =
        foldl (\<lambda>t d. t + responseTime_of d) 0 (filter (counted cfg) ds) \<and>
      totalRequests (overallInformation cd) =
        foldl (\<lambda>n d. n + 1) 0 (filter (counted cfg) ds) \<and>
      requests cd = concat (map (pushed cfg) ds) \<and>
      length (requests cd) = length (filter (recorded cfg) ds))"
proof -
  let ?obs = "observe cfg \<lparr>collectedData = initialData, logged = []\<rparr> ds"
  have r: "requests (collectedData ?obs) = concat (map (pushed cfg) ds)"
    by (simp add: observe_requests initialData_def)
  have n: "totalRequests (overallInformation (collectedData ?obs)) =
      foldl (\<lambda>n d. n + 1) 0 (filter (counted cfg) ds)"
    by (simp add: observe_totalRequests initialData_def)
  have t: "totalTime (overallInformation (collectedData ?obs)) =
      foldl (\<lambda>t d. t + responseTime_of d) 0 (filter (counted cfg) ds)"
    by (simp add: observe_totalTime initialData_def)
  have w: "fst (monitorNetworkTraffic cfg role now ds) = fst (close (fileName role now) ?obs)"
    by (simp add: monitorNetworkTraffic_def)
  show ?thesis
    unfolding w close_written
    using r n t
    by (auto simp: concat_pushed_eq_Nil_iff length_concat_pushed simp del: concat_eq_Nil_conv)
qed

text \<open>
  A session of ten filter-matched exchanges, two of them slower than the threshold, and
  one image that does not match: the average is over the ten, the list has two records.
\<close>

lemma show_nat_example: "show_nat 1700000000000 = ''1700000000000''"
  by (simp add: show_nat.simps)

lemma example_counted:
  "counted example_cfg example_fast" "counted example_cfg example_slow"
  "\<not> counted example_cfg (example_data ''https://shop.example/logo.png'' 404 5000 None)"
  by (simp_all add: counted_def example_fast_def example_slow_def example_data_def example_matches)

lemma example_recorded:
  "\<not> recorded example_cfg example_fast" "recorded example_cfg example_slow"
  "\<not> recorded example_cfg (example_data ''https://shop.example/logo.png'' 404 5000 None)"
  by (simp_all add: recorded_def example_fast_def example_slow_def example_data_def
      matchesURLQuery_def startsWith_def example_response_def responseTime_of_def example_cfg_def)

lemma example_pushed:
  "pushed example_cfg example_fast = []"
  "length (pushed example_cfg example_slow) = 1"
  "pushed example_cfg (example_data ''https://shop.example/logo.png'' 404 5000 None) = []"
  using example_recorded
  by (simp_all add: pushed_def example_slow_def example_data_def split: sum.splits)

lemma example_responseTime:
  "responseTime_of example_fast = 1000" "responseTime_of example_slow = 3000"
  by (simp_all add: responseTime_of_def example_fast_def example_slow_def example_data_def)

theorem monitorNetworkTraffic_trace_witness:
  "map_option (\<lambda>(name, cd). (name, avgResponseTime (overallInformation cd),
       totalTime (overallInformation cd), totalRequests (overallInformation cd),
       length (requests cd)))
     (fst (monitorNetworkTraffic example_cfg ''User'' 1700000000000 example_session)) =
   Some (''User_metrics_report_1700000000000.json'', 1400, 14000, 10, 2)"
proof -
  have "fst (monitorNetworkTraffic example_cfg ''User'' 1700000000000 example_session) \<noteq> None"
    using monitorNetworkTraffic_trace [of example_cfg "''User''" 1700000000000 example_session,
        THEN conjunct2, THEN conjunct1]
    by (simp add: example_session_def example_recorded)
  then obtain name cd where
    w: "fst (monitorNetworkTraffic example_cfg ''User'' 1700000000000 example_session) =
        Some (name, cd)"
    by auto
  show ?thesis
    using monitorNetworkTraffic_trace [of example_cfg "''User''" 1700000000000 example_session,
        THEN conjunct2, THEN conjunct2] w
    by (simp add: example_session_def example_recorded example_counted example_responseTime
        example_pushed fileName_def show_nat_example)
qed

section \<open>The merge\<close>

text \<open>
  The merge changes the \<open>overallInformation\<close> of a role only when it seeds the role.
\<close>

lemma alist_update_oi:
  "map_of rs role = Some entry \<Longrightarrow>
   role_overallInformation entry' = role_overallInformation entry \<Longrightarrow>
   map_option role_overallInformation (map_of (AList.update role entry' rs) r) =
   map_option role_overallInformation (map_of rs r)"
  by (simp add: update_conv')

lemma merge_request_oi:
  assumes "merge_request role request lg rs = (lg', Inr rs')"
  shows "map_option role_overallInformation (map_of rs' r) =
         map_option role_overallInformation (map_of rs r)"
  using assms
  by (auto simp: merge_request_def alist_update_oi split: option.splits if_splits)

lemma merge_requests_oi:
  "merge_requests role reqs lg rs = (lg', Inr rs') \<Longrightarrow>
   map_option role_overallInformation (map_of rs' r) =
   map_option role_overallInformation (map_of rs r)"
proof (induction reqs arbitrary: lg rs)
  case Nil
  then show ?case by simp
next
  case (Cons request reqs)
  obtain lg1 res where m: "merge_request role request lg rs = (lg1, res)"
    by (cases "merge_request role request lg rs")
  with Cons.prems obtain rs1 where r: "res = Inr rs1"
    by (cases res) auto
  from Cons.prems m r have "merge_requests role reqs lg1 rs1 = (lg', Inr rs')" by simp
  then have "map_option role_overallInformation (map_of rs' r) =
      map_option role_overallInformation (map_of rs1 r)" by (rule Cons.IH)
  also have "\<dots> = map_option role_overallInformation (map_of rs r)"
    using m r merge_request_oi by blast
  finally show ?case .
qed

lemma merge_file_oi:
  assumes "merge_file f lg rs = (lg', Inr rs')"
  shows "map_option role_overallInformation (map_of rs' r) =
         (case map_of rs r of
            Some entry \<Rightarrow> Some (role_overallInformation entry)
          | None \<Rightarrow>
              (case snd f of
                 Some metrics \<Rightarrow>
                   if role_of (fst f) = r \<and> \<not> inherited r
                   then Some (metrics_overallInformation metrics) else None
               | None \<Rightarrow> None))"
proof (cases "snd f")
  case None
  with assms show ?thesis by (auto simp: merge_file_def split: option.splits)
next
  case (Some metrics)
  let ?role = "role_of (fst f)"
  let ?rs1 = "if map_of rs ?role = None \<and> \<not> inherited ?role
              then AList.update ?role
                     \<lparr>role_overallInformation = metrics_overallInformation metrics,
                      gql_operations = [], rest_requests = []\<rparr> rs
              else rs"
  have "map_option role_overallInformation (map_of rs' r) =
        map_option role_overallInformation (map_of ?rs1 r)"
  proof (cases "metrics_requests metrics")
    case None
    with assms Some show ?thesis by (simp add: merge_file_def Let_def)
  next
    case (Some reqs)
    with assms \<open>snd f = Some metrics\<close>
    have "merge_requests ?role reqs lg ?rs1 = (lg', Inr rs')"
      by (simp add: merge_file_def Let_def)
    then show ?thesis by (rule merge_requests_oi)
  qed
  also have "\<dots> = (case map_of rs r of
            Some entry \<Rightarrow> Some (role_overallInformation entry)
          | None \<Rightarrow> if ?role = r \<and> \<not> inherited r
                    then Some (metrics_overallInformation metrics) else None)"
    by (auto simp: update_conv' split: option.splits)
  finally show ?thesis using Some by (auto split: option.splits)
qed

lemma merge_files_oi:
  "merge_files files lg rs = (lg', Inr rs') \<Longrightarrow>
   map_option role_overallInformation (map_of rs' r) =
   (case map_of rs r of
      Some entry \<Rightarrow> Some (role_overallInformation entry)
    | None \<Rightarrow>
        if inherited r then None
        else (case List.find (\<lambda>f. role_of (fst f) = r \<and> snd f \<noteq> None) files of
                Some (name, Some metrics) \<Rightarrow> Some (metrics_overallInformation metrics)
              | _ \<Rightarrow> None))"
proof (induction files arbitrary: lg rs)
  case Nil
  then show ?case by (auto split: option.splits)
next
  case (Cons f files)
  obtain lg1 res where m: "merge_file f lg rs = (lg1, res)"
    by (cases "merge_file f lg rs")
  with Cons.prems obtain rs1 where r: "res = Inr rs1"
    by (cases res) auto
  from Cons.prems m r have "merge_files files lg1 rs1 = (lg', Inr rs')" by simp
  note ih = Cons.IH [OF this]
  note st = merge_file_oi [OF m [unfolded r], of r]
  show ?case
  proof (cases "map_of rs1 r")
    case None
    with st have n: "map_of rs r = None" by (auto split: option.splits)
    from None st n have "\<not> (role_of (fst f) = r \<and> snd f \<noteq> None) \<or> inherited r"
      by (auto split: option.splits if_splits)
    with ih None n show ?thesis by (auto split: option.splits)
  next
    case (Some entry1)
    with ih have e: "map_option role_overallInformation (map_of rs' r) =
        Some (role_overallInformation entry1)" by simp
    show ?thesis
    proof (cases "map_of rs r")
      case None
      with st Some obtain metrics where
        "snd f = Some metrics" "role_of (fst f) = r" "\<not> inherited r"
        "role_overallInformation entry1 = metrics_overallInformation metrics"
        by (auto split: option.splits if_splits)
      with e None show ?thesis by (cases f) auto
    next
      case (Some entry)
      with st \<open>map_of rs1 r = Some entry1\<close> e show ?thesis by simp
    qed
  qed
qed

lemma extendJsonWithErrors_roles:
  "extendJsonWithErrors truthy stringify m = Inr m' \<Longrightarrow> roles m' = roles m"
  by (auto simp: extendJsonWithErrors_def Let_def split: sum.splits)

text \<open>
  The merge creates no bucket with an inherited name, \<open>__proto__\<close> among them: it
  throws instead.
\<close>

lemma no_inherited_names_update:
  assumes "no_inherited_names rs"
    and "\<forall>name bucket. map_of (gql_operations entry) name = Some bucket \<longrightarrow> \<not> inherited name"
  shows "no_inherited_names (AList.update role entry rs)"
  using assms unfolding no_inherited_names_def
  by (auto simp: update_conv' split: if_splits)

lemma merge_request_names:
  assumes "no_inherited_names rs" and "merge_request role request lg rs = (lg', Inr rs')"
  shows "no_inherited_names rs'"
proof -
  have e: "\<forall>name bucket. map_of (gql_operations entry) name = Some bucket \<longrightarrow> \<not> inherited name"
    if "map_of rs role = Some entry" for entry
    using assms(1) that unfolding no_inherited_names_def by blast
  show ?thesis
    using assms e
    by (auto simp: merge_request_def update_conv' split: option.splits if_splits
        intro!: no_inherited_names_update)
qed

lemma merge_requests_names:
  "no_inherited_names rs \<Longrightarrow> merge_requests role reqs lg rs = (lg', Inr rs') \<Longrightarrow>
   no_inherited_names rs'"
proof (induction reqs arbitrary: lg rs)
  case Nil
  then show ?case by simp
next
  case (Cons request reqs)
  obtain lg1 res where m: "merge_request role request lg rs = (lg1, res)"
    by (cases "merge_request role request lg rs")
  with Cons.prems obtain rs1 where r: "res = Inr rs1"
    by (cases res) auto
  from Cons.prems m r have 2: "merge_requests role reqs lg1 rs1 = (lg', Inr rs')" by simp
  from merge_request_names [OF Cons.prems(1) m [unfolded r]] have "no_inherited_names rs1" .
  from Cons.IH [OF this 2] show ?case .
qed

lemma merge_file_names:
  assumes "no_inherited_names rs" and "merge_file f lg rs = (lg', Inr rs')"
  shows "no_inherited_names rs'"
proof (cases "snd f")
  case None
  with assms show ?thesis by (simp add: merge_file_def)
next
  case (Some metrics)
  let ?role = "role_of (fst f)"
  let ?rs1 = "if map_of rs ?role = None \<and> \<not> inherited ?role
              then AList.update ?role
                     \<lparr>role_overallInformation = metrics_overallInformation metrics,
                      gql_operations = [], rest_requests = []\<rparr> rs
              else rs"
  have 1: "no_inherited_names ?rs1"
    using assms(1) by (auto intro!: no_inherited_names_update)
  show ?thesis
  proof (cases "metrics_requests metrics")
    case None
    with assms(2) Some have "rs' = ?rs1" by (simp add: merge_file_def Let_def)
    with 1 show ?thesis by simp
  next
    case (Some reqs)
    with assms(2) \<open>snd f = Some metrics\<close>
    have "merge_requests ?role reqs lg ?rs1 = (lg', Inr rs')"
      by (simp add: merge_file_def Let_def)
    from merge_requests_names [OF 1 this] show ?thesis .
  qed
qed

lemma merge_files_names:
  "no_inherited_names rs \<Longrightarrow> merge_files files lg rs = (lg', Inr rs') \<Longrightarrow>
   no_inherited_names rs'"
proof (induction files arbitrary: lg rs)
  case Nil
  then show ?case by simp
next
  case (Cons f files)
  obtain lg1 res where m: "merge_file f lg rs = (lg1, res)"
    by (cases "merge_file f lg rs")
  with Cons.prems obtain rs1 where r: "res = Inr rs1"
    by (cases res) auto
  from Cons.prems m r have 2: "merge_files files lg1 rs1 = (lg', Inr rs')" by simp
  from merge_file_names [OF Cons.prems(1) m [unfolded r]] have "no_inherited_names rs1" .
  from Cons.IH [OF this 2] show ?case .
qed

lemma mergeNetworkTraces_operation_names:
  assumes "mergeNetworkTraces truthy stringify (Some files) = (lg, Inr report)"
    and "map_of (roles report) role = Some entry"
    and "map_of (gql_operations entry) name = Some bucket"
  shows "\<not> inherited name" and "name \<noteq> ''__proto__''"
proof -
  from assms(1) obtain lg1 rs where
    m: "merge_files files [Info_merging_network_metrics] [] = (lg1, Inr rs)" and
    x: "extendJsonWithErrors truthy stringify \<lparr>roles = rs, errors = None\<rparr> = Inr report"
    by (auto simp: mergeNetworkTraces_def split: prod.splits sum.splits)
  from x have r: "roles report = rs" using extendJsonWithErrors_roles by fastforce
  have "no_inherited_names []" by (simp add: no_inherited_names_def)
  from merge_files_names [OF this m] have "no_inherited_names rs" .
  with assms(2,3) r show "\<not> inherited name"
    unfolding no_inherited_names_def by blast
  then show "name \<noteq> ''__proto__''" by (auto simp: inherited_def)
qed

section \<open>The error classifier\<close>

subsection \<open>Keys of objects\<close>

lemma set_ownKeys: "set (ownKeys obj) = fst ` set obj"
  by (auto simp: ownKeys_def Let_def)

lemma distinct_ownKeys: "distinct (ownKeys obj)"
  by (auto simp: ownKeys_def Let_def)

lemma map_filter_Some:
  "\<forall>x \<in> set xs. f x \<noteq> None \<Longrightarrow> map fst (List.map_filter (\<lambda>k. map_option (Pair k) (f k)) xs) = xs"
  by (induction xs) (auto simp: List.map_filter_simps)

lemma map_fst_entries: "map fst (entries obj) = ownKeys obj"
proof -
  have "\<forall>k \<in> set (ownKeys obj). map_of obj k \<noteq> None"
    by (simp add: set_ownKeys map_of_eq_None_iff)
  then show ?thesis unfolding entries_def by (rule map_filter_Some)
qed

lemma distinct_entries: "distinct (map fst (entries obj))"
  by (simp add: map_fst_entries distinct_ownKeys)

lemma entries_mem: "(k, v) \<in> set (entries obj) \<longleftrightarrow> map_of obj k = Some v"
proof
  assume "(k, v) \<in> set (entries obj)"
  then show "map_of obj k = Some v"
    by (auto simp: entries_def List.map_filter_def)
next
  assume a: "map_of obj k = Some v"
  then have "k \<in> set (ownKeys obj)"
    by (metis set_ownKeys map_of_eq_None_iff option.distinct(1))
  with a show "(k, v) \<in> set (entries obj)"
    by (force simp: entries_def List.map_filter_def)
qed

lemma map_of_entries: "map_of (entries obj) k = map_of obj k"
proof (cases "map_of obj k")
  case None
  then have "k \<notin> fst ` set (entries obj)"
    by (auto simp: entries_mem)
  then show ?thesis using None by (simp add: map_of_eq_None_iff [symmetric])
next
  case (Some v)
  then have "(k, v) \<in> set (entries obj)" by (simp add: entries_mem)
  then show ?thesis using Some distinct_entries [of obj] by simp
qed

lemma numberKeys_set: "set (numberKeys obj) = fst ` set obj"
  by (auto simp: numberKeys_def Let_def)

lemma numberKeys_distinct: "distinct (numberKeys obj)"
  by (auto simp: numberKeys_def Let_def)

lemma numberKeys_sorted:
  "\<forall>k \<in> fst ` set obj. k < 4294967295 \<Longrightarrow> numberKeys obj = sort (remdups (map fst obj))"
proof -
  assume a: "\<forall>k \<in> fst ` set obj. k < 4294967295"
  have 1: "filter (\<lambda>k. k < 4294967295) (remdups (map fst obj)) = remdups (map fst obj)"
    using a by (intro filter_True) auto
  have 2: "filter (\<lambda>k. \<not> k < 4294967295) (remdups (map fst obj)) = []"
    using a by (intro filter_False) auto
  show ?thesis by (simp add: numberKeys_def Let_def 1 2)
qed

subsection \<open>The frequency map and the reductions\<close>

lemma map_of_count_status:
  "map_of (count_status m c) k =
     (if k = c then Some ((case map_of m c of None \<Rightarrow> 0 | Some n \<Rightarrow> n) + 1) else map_of m k)"
  by (simp add: count_status_def update_conv')

lemma map_of_foldl_count_status:
  "map_of (foldl count_status m cs) k =
     (if k \<in> set cs
      then Some ((case map_of m k of None \<Rightarrow> 0 | Some n \<Rightarrow> n) + count_list cs k)
      else map_of m k)"
  by (induction cs arbitrary: m) (auto simp: map_of_count_status)

lemma map_of_statusCodeCounts:
  "map_of (foldl count_status [] cs) k = (if k \<in> set cs then Some (count_list cs k) else None)"
  by (simp add: map_of_foldl_count_status)

lemma keys_statusCodeCounts: "fst ` set (foldl count_status [] cs) = set cs"
proof -
  have "k \<in> fst ` set (foldl count_status [] cs) \<longleftrightarrow> k \<in> set cs" for k
    using map_of_statusCodeCounts [of cs k]
    by (metis map_of_eq_None_iff option.distinct(1))
  then show ?thesis by blast
qed

lemma more_frequent_statusCodeCounts:
  "a \<in> set cs \<Longrightarrow> b \<in> set cs \<Longrightarrow>
   more_frequent (foldl count_status [] cs) a b =
     (if count_list cs a > count_list cs b then a else b)"
  by (simp add: more_frequent_def map_of_statusCodeCounts)

lemma foldl_more_frequent_max:
  "set xs \<subseteq> set cs \<Longrightarrow> a \<in> set cs \<Longrightarrow>
   foldl (more_frequent (foldl count_status [] cs)) a xs \<in> insert a (set xs) \<and>
   (\<forall>y \<in> insert a (set xs).
      count_list cs y \<le> count_list cs (foldl (more_frequent (foldl count_status [] cs)) a xs))"
proof (induction xs arbitrary: a)
  case Nil
  then show ?case by simp
next
  case (Cons x xs)
  let ?f = "more_frequent (foldl count_status [] cs)"
  have f: "?f a x = (if count_list cs a > count_list cs x then a else x)"
    using Cons.prems by (simp add: more_frequent_statusCodeCounts)
  have "?f a x \<in> set cs" using Cons.prems f by simp
  with Cons.IH [of "?f a x"] Cons.prems
  have ih: "foldl ?f (?f a x) xs \<in> insert (?f a x) (set xs)"
    "\<forall>y \<in> insert (?f a x) (set xs). count_list cs y \<le> count_list cs (foldl ?f (?f a x) xs)"
    by simp_all
  have "count_list cs a \<le> count_list cs (?f a x)" "count_list cs x \<le> count_list cs (?f a x)"
    using f by simp_all
  moreover have "count_list cs (?f a x) \<le> count_list cs (foldl ?f (?f a x) xs)"
    using ih(2) by simp
  ultimately show ?case using ih f by (auto split: if_splits)
qed

lemma foldl_more_frequent_sorted:
  assumes "set xs \<subseteq> set cs" "a \<in> set cs" "sorted xs"
    and "\<forall>x \<in> set xs. a \<le> x"
    and "\<forall>y \<in> S. \<forall>x \<in> set xs. y \<le> x"
    and "\<forall>y \<in> S. count_list cs y \<le> count_list cs a \<and>
           (count_list cs y = count_list cs a \<longrightarrow> y \<le> a)"
  shows "\<forall>y \<in> S \<union> insert a (set xs).
           count_list cs y \<le> count_list cs (foldl (more_frequent (foldl count_status [] cs)) a xs) \<and>
           (count_list cs y = count_list cs (foldl (more_frequent (foldl count_status [] cs)) a xs)
              \<longrightarrow> y \<le> foldl (more_frequent (foldl count_status [] cs)) a xs)"
  using assms
proof (induction xs arbitrary: a S)
  case Nil
  then show ?case by simp
next
  case (Cons x xs)
  let ?f = "more_frequent (foldl count_status [] cs)"
  have f: "?f a x = (if count_list cs a > count_list cs x then a else x)"
    using Cons.prems by (simp add: more_frequent_statusCodeCounts)
  let ?S = "S \<union> {a, x}"
  have 1: "set xs \<subseteq> set cs" "?f a x \<in> set cs" "sorted xs"
    using Cons.prems f by simp_all
  have 2: "\<forall>z \<in> set xs. ?f a x \<le> z"
    using Cons.prems f by auto
  have 3: "\<forall>y \<in> ?S. \<forall>z \<in> set xs. y \<le> z"
    using Cons.prems by auto
  have 4: "\<forall>y \<in> ?S. count_list cs y \<le> count_list cs (?f a x) \<and>
           (count_list cs y = count_list cs (?f a x) \<longrightarrow> y \<le> ?f a x)"
  proof
    fix y assume y: "y \<in> ?S"
    show "count_list cs y \<le> count_list cs (?f a x) \<and>
           (count_list cs y = count_list cs (?f a x) \<longrightarrow> y \<le> ?f a x)"
    proof (cases "count_list cs a > count_list cs x")
      case True
      then have "?f a x = a" using f by simp
      with y True Cons.prems(6) show ?thesis by auto
    next
      case False
      then have e: "?f a x = x" using f by simp
      from y consider "y \<in> S" | "y = a" | "y = x" by auto
      then show ?thesis
      proof cases
        case 1
        with Cons.prems(5,6) False have "count_list cs y \<le> count_list cs x" "y \<le> x"
          by (auto intro: le_trans)
        then show ?thesis using e by simp
      next
        case 2
        with False Cons.prems(4) show ?thesis using e by simp
      next
        case 3
        then show ?thesis using e by simp
      qed
    qed
  qed
  from Cons.IH [OF 1 2 3 4]
  show ?case by auto
qed

lemma most_common_Nil: "most_common (foldl count_status [] []) = Inr Null"
  by (simp add: most_common_def numberKeys_def)

lemma most_common_max:
  assumes "cs \<noteq> []"
  shows "\<exists>m. most_common (foldl count_status [] cs) = Inr (Key m) \<and> m \<in> set cs \<and>
             (\<forall>c. count_list cs c \<le> count_list cs m)"
proof -
  let ?counts = "foldl count_status [] cs"
  have s: "set (numberKeys ?counts) = set cs"
    by (simp add: numberKeys_set keys_statusCodeCounts)
  with assms obtain k ks where k: "numberKeys ?counts = k # ks"
    by (cases "numberKeys ?counts") auto
  let ?m = "foldl (more_frequent ?counts) k ks"
  have "set ks \<subseteq> set cs" "k \<in> set cs" using s k by auto
  from foldl_more_frequent_max [OF this]
  have m: "?m \<in> set cs" "\<forall>y \<in> set cs. count_list cs y \<le> count_list cs ?m"
    using s k by auto
  have "count_list cs c \<le> count_list cs ?m" for c
    using m(2) by (cases "c \<in> set cs") (auto simp: count_list_0_iff)
  moreover have "most_common ?counts = Inr (Key ?m)"
    by (simp add: most_common_def k)
  ultimately show ?thesis using m(1) by blast
qed

lemma most_common_largest:
  assumes "cs \<noteq> []" and "\<forall>c \<in> set cs. c < 4294967295"
  shows "\<exists>m. most_common (foldl count_status [] cs) = Inr (Key m) \<and> m \<in> set cs \<and>
             (\<forall>c. count_list cs c \<le> count_list cs m) \<and>
             (\<forall>c. count_list cs c = count_list cs m \<longrightarrow> c \<le> m)"
proof -
  let ?counts = "foldl count_status [] cs"
  have s: "set (numberKeys ?counts) = set cs"
    by (simp add: numberKeys_set keys_statusCodeCounts)
  have srt: "sorted (numberKeys ?counts)"
    using assms(2) by (simp add: numberKeys_sorted keys_statusCodeCounts)
  from s assms obtain k ks where k: "numberKeys ?counts = k # ks"
    by (cases "numberKeys ?counts") auto
  let ?m = "foldl (more_frequent ?counts) k ks"
  have a: "set ks \<subseteq> set cs" "k \<in> set cs" using s k by auto
  from foldl_more_frequent_max [OF a]
  have m: "?m \<in> set cs" "\<forall>y \<in> set cs. count_list cs y \<le> count_list cs ?m"
    using s k by auto
  have b: "sorted ks" "\<forall>x \<in> set ks. k \<le> x" using srt k by auto
  have "\<forall>y \<in> {} \<union> insert k (set ks).
           count_list cs y \<le> count_list cs ?m \<and> (count_list cs y = count_list cs ?m \<longrightarrow> y \<le> ?m)"
    by (rule foldl_more_frequent_sorted [OF a b]) simp_all
  then have t: "\<forall>y \<in> set cs. count_list cs y = count_list cs ?m \<longrightarrow> y \<le> ?m"
    using s k by auto
  have pos: "count_list cs ?m > 0" using m(1) by (metis count_list_0_iff gr0I)
  have 1: "count_list cs c \<le> count_list cs ?m" for c
    using m(2) by (cases "c \<in> set cs") (auto simp: count_list_0_iff)
  have 2: "count_list cs c = count_list cs ?m \<longrightarrow> c \<le> ?m" for c
    using t pos by (cases "c \<in> set cs") (auto simp: count_list_0_iff)
  have "most_common ?counts = Inr (Key ?m)"
    by (simp add: most_common_def k)
  then show ?thesis using m(1) 1 2 by blast
qed

lemma reduce_statusCodes:
  assumes "cs \<noteq> []"
  shows "\<exists>c. reduce (more_frequent (foldl count_status [] cs)) cs = Inr c \<and> c \<in> set cs \<and>
             (\<forall>c'. count_list cs c' \<le> count_list cs c)"
proof -
  from assms obtain x xs where x: "cs = x # xs" by (cases cs) auto
  let ?m = "foldl (more_frequent (foldl count_status [] cs)) x xs"
  have "set xs \<subseteq> set cs" "x \<in> set cs" using x by auto
  from foldl_more_frequent_max [OF this]
  have m: "?m \<in> set cs" "\<forall>y \<in> set cs. count_list cs y \<le> count_list cs ?m"
    using x by auto
  have "count_list cs c \<le> count_list cs ?m" for c
    using m(2) by (cases "c \<in> set cs") (auto simp: count_list_0_iff)
  moreover have "reduce (more_frequent (foldl count_status [] cs)) cs = Inr ?m"
    by (subst (2) x) simp
  ultimately show ?thesis using m(1) by blast
qed

subsection \<open>The remote-call path\<close>

lemma gql_summary_Inr:
  assumes "errorStatusCodesArray stringify rs \<noteq> []"
  shows "\<exists>m c. gql_summary stringify rs =
           Inr \<lparr>count = length (errorStatusCodesArray stringify rs),
                mostCommonStatusCode = Key m, allStatusCodes = Single c\<rparr> \<and>
           most_common (foldl count_status [] (errorStatusCodesArray stringify rs)) = Inr (Key m) \<and>
           reduce (more_frequent (foldl count_status [] (errorStatusCodesArray stringify rs)))
             (errorStatusCodesArray stringify rs) = Inr c"
proof -
  from most_common_max [OF assms] obtain m where
    m: "most_common (foldl count_status [] (errorStatusCodesArray stringify rs)) = Inr (Key m)"
    by blast
  from reduce_statusCodes [OF assms] obtain c where
    c: "reduce (more_frequent (foldl count_status [] (errorStatusCodesArray stringify rs)))
          (errorStatusCodesArray stringify rs) = Inr c"
    by blast
  from m c show ?thesis by (simp add: gql_summary_def Let_def)
qed

lemma triggers_codes:
  "triggers truthy stringify rs \<Longrightarrow> errorStatusCodesArray stringify rs \<noteq> []"
  by (auto simp: triggers_def errorStatusCodesArray_def list_ex_iff filter_empty_conv)

lemma gql_request_other [simp]:
  "errors_rest (gql_request truthy stringify name rs errs r) = errors_rest errs"
  "errors_other (gql_request truthy stringify name rs errs r) = errors_other errs"
  by (simp_all add: gql_request_def Let_def split: sum.splits)

lemma in_errors_proto: "in_errors errs ''__proto__''"
  by (simp add: in_errors_def inherited_def)

lemma gql_request_gql:
  assumes "gql_summary stringify rs = Inr summary"
  shows "map_of (errors_gql (gql_request truthy stringify name rs errs r)) k =
           (if k = name \<and> name \<noteq> ''__proto__'' \<and>
               truthy (m_responseBody r) \<and> is_error stringify r
            then Some (Summary summary) else map_of (errors_gql errs) k)"
  using assms by (simp add: gql_request_def Let_def update_conv' in_errors_proto)

lemma gql_request_idle:
  "\<not> (truthy (m_responseBody r) \<and> is_error stringify r) \<Longrightarrow>
   gql_request truthy stringify name rs errs r = errs"
  by (auto simp: gql_request_def)

lemma foldl_gql_request_other [simp]:
  "errors_rest (foldl (gql_request truthy stringify name rs) errs rs') = errors_rest errs"
  "errors_other (foldl (gql_request truthy stringify name rs) errs rs') = errors_other errs"
  by (induction rs' arbitrary: errs) simp_all

lemma foldl_gql_request_idle:
  "\<not> triggers truthy stringify rs' \<Longrightarrow>
   foldl (gql_request truthy stringify name rs) errs rs' = errs"
  by (induction rs' arbitrary: errs) (auto simp: triggers_def gql_request_idle)

lemma foldl_gql_request_gql:
  assumes "gql_summary stringify rs = Inr summary"
  shows "map_of (errors_gql (foldl (gql_request truthy stringify name rs) errs rs')) k =
           (if k = name \<and> name \<noteq> ''__proto__'' \<and> triggers truthy stringify rs'
            then Some (Summary summary) else map_of (errors_gql errs) k)"
proof (induction rs' arbitrary: errs)
  case Nil
  then show ?case by (simp add: triggers_def)
next
  case (Cons r rs')
  show ?case
    by (simp add: Cons.IH gql_request_gql [OF assms]) (auto simp: triggers_def)
qed

text \<open>The entry of an operation after the loop over its requests.\<close>

lemma gql_operation_other [simp]:
  "errors_rest (gql_operation truthy stringify errs operation) = errors_rest errs"
  "errors_other (gql_operation truthy stringify errs operation) = errors_other errs"
  by (simp_all add: gql_operation_def)

lemma gql_operation_idle:
  "\<not> triggers truthy stringify (snd operation) \<Longrightarrow>
   gql_operation truthy stringify errs operation = errs"
  by (simp add: gql_operation_def foldl_gql_request_idle)

lemma gql_operation_gql:
  "map_of (errors_gql (gql_operation truthy stringify errs operation)) k =
     (if k = fst operation \<and> fst operation \<noteq> ''__proto__'' \<and>
         triggers truthy stringify (snd operation)
      then (case gql_summary stringify (snd operation) of
              Inl e \<Rightarrow> None | Inr summary \<Rightarrow> Some (Summary summary))
      else map_of (errors_gql errs) k)"
proof (cases "triggers truthy stringify (snd operation)")
  case False
  then show ?thesis by (simp add: gql_operation_idle)
next
  case True
  from gql_summary_Inr [OF triggers_codes [OF True]]
  obtain summary where s: "gql_summary stringify (snd operation) = Inr summary" by blast
  show ?thesis
    by (simp add: gql_operation_def foldl_gql_request_gql [OF s] s)
qed

lemma foldl_gql_operation_other [simp]:
  "errors_rest (foldl (gql_operation truthy stringify) errs ops) = errors_rest errs"
  "errors_other (foldl (gql_operation truthy stringify) errs ops) = errors_other errs"
  by (induction ops arbitrary: errs) simp_all

lemma assigned_Some_iff:
  "assigned truthy stringify name operations \<noteq> None \<longleftrightarrow>
   name \<noteq> ''__proto__'' \<and>
   (\<exists>rs. map_of operations name = Some rs \<and> triggers truthy stringify rs)"
proof -
  have "gql_summary stringify rs \<noteq> Inl e" if "triggers truthy stringify rs" for rs e
    using gql_summary_Inr [OF triggers_codes [OF that]] by auto
  then show ?thesis
    by (auto simp: assigned_def split: option.splits sum.splits)
qed

lemma foldl_gql_operation_gql:
  "distinct (map fst ops) \<Longrightarrow>
   map_of (errors_gql (foldl (gql_operation truthy stringify) errs ops)) k =
     (case assigned truthy stringify k ops of
        Some entry \<Rightarrow> Some entry
      | None \<Rightarrow> map_of (errors_gql errs) k)"
proof (induction ops arbitrary: errs)
  case Nil
  then show ?case by (simp add: assigned_def)
next
  case (Cons operation ops)
  obtain name rs where o: "operation = (name, rs)" by (cases operation)
  from Cons.prems o have d: "distinct (map fst ops)" "name \<notin> fst ` set ops" by auto
  have n: "map_of ops name = None" using d(2) by (simp add: map_of_eq_None_iff)
  have a: "assigned truthy stringify k (operation # ops) =
      (if k = name then assigned truthy stringify k [operation] else assigned truthy stringify k ops)"
    using o by (simp add: assigned_def)
  have b: "k = name \<Longrightarrow> assigned truthy stringify k ops = None"
    using n by (simp add: assigned_def)
  have c: "\<not> (name \<noteq> ''__proto__'' \<and> triggers truthy stringify rs) \<Longrightarrow>
      assigned truthy stringify name [operation] = None"
    using o by (auto simp: assigned_def)
  have c': "name \<noteq> ''__proto__'' \<Longrightarrow> triggers truthy stringify rs \<Longrightarrow>
      assigned truthy stringify name [operation] =
      (case gql_summary stringify rs of Inl e \<Rightarrow> None | Inr summary \<Rightarrow> Some (Summary summary))"
    using o by (simp add: assigned_def)
  have c'': "triggers truthy stringify rs \<Longrightarrow> \<exists>s. gql_summary stringify rs = Inr s"
    using gql_summary_Inr [OF triggers_codes] by blast
  show ?case
    using a b c c' c'' o
    by (auto simp: Cons.IH [OF d(1)] gql_operation_gql split: option.splits sum.splits)
qed

subsection \<open>The resource path\<close>

lemma most_common_single: "most_common (foldl count_status [] [c]) = Inr (Key c)"
  by (simp add: most_common_def numberKeys_def count_status_def)

lemma rest_codes_snoc:
  "rest_codes url (reqs @ [r]) =
     (if m_requestUrl r = url \<and> m_responseStatusCode r \<noteq> 200
      then rest_codes url reqs @ [m_responseStatusCode r] else rest_codes url reqs)"
  by (simp add: rest_codes_def)

lemma rest_codes_append: "rest_codes url (xs @ ys) = rest_codes url xs @ rest_codes url ys"
  by (simp add: rest_codes_def)

lemma rest_request_step:
  assumes inv: "rest_inv errs reqs" and step: "rest_request r errs = Inr errs'"
  shows "rest_inv errs' (reqs @ [r])"
proof (cases "m_responseStatusCode r \<noteq> 200")
  case False
  with step have "errs' = errs" by (simp add: rest_request_def)
  with inv False show ?thesis by (simp add: rest_inv_def rest_codes_snoc)
next
  case True
  let ?u = "m_requestUrl r"
  let ?c = "m_responseStatusCode r"
  from inv have o: "errors_other errs = []"
    and e: "\<And>url. map_of (errors_rest errs) url = rest_expected (rest_codes url reqs)"
    by (simp_all add: rest_inv_def)
  have "\<exists>s. errs' = errs\<lparr>errors_rest := AList.update ?u s (errors_rest errs)\<rparr> \<and>
          Some s = rest_expected (rest_codes ?u reqs @ [?c])"
  proof (cases "rest_codes ?u reqs" rule: rest_expected.cases)
    case 1
    with e [of ?u] have "map_of (errors_rest errs) ?u = None" by simp
    with step True 1 show ?thesis
      by (auto simp: rest_request_def split: if_splits)
  next
    case (2 c)
    with e [of ?u] have "map_of (errors_rest errs) ?u =
        Some \<lparr>count = 1, mostCommonStatusCode = Num c, allStatusCodes = Listed [c]\<rparr>" by simp
    with step True 2 o show ?thesis
      by (auto simp: rest_request_def most_common_single [simplified] numeral_2_eq_2)
  next
    case (3 c d)
    with e [of ?u] have "map_of (errors_rest errs) ?u =
        Some \<lparr>count = 2, mostCommonStatusCode = Key c, allStatusCodes = Listed []\<rparr>" by simp
    with step True 3 o show ?thesis
      by (auto simp: rest_request_def most_common_Nil [simplified] numeral_2_eq_2)
  next
    case (4 c d b cs)
    with e [of ?u] have "map_of (errors_rest errs) ?u =
        Some \<lparr>count = length (c # d # b # cs), mostCommonStatusCode = Null,
              allStatusCodes = Listed []\<rparr>" by simp
    with step True 4 o show ?thesis
      by (auto simp: rest_request_def most_common_Nil [simplified] numeral_2_eq_2)
  qed
  then obtain s where
    s: "errs' = errs\<lparr>errors_rest := AList.update ?u s (errors_rest errs)\<rparr>"
       "Some s = rest_expected (rest_codes ?u reqs @ [?c])"
    by blast
  show ?thesis
    unfolding rest_inv_def
  proof (intro conjI allI)
    show "errors_other errs' = []" using s(1) o by simp
  next
    fix url
    show "map_of (errors_rest errs') url = rest_expected (rest_codes url (reqs @ [r]))"
      using s True e [of url] by (simp add: update_conv' rest_codes_snoc)
  qed
qed

lemma rest_request_gql:
  "rest_request r errs = Inr errs' \<Longrightarrow> errors_gql errs' = errors_gql errs"
  by (auto simp: rest_request_def split: if_splits option.splits all_codes.splits sum.splits)

lemma rest_loop_gql:
  "rest_loop reqs errs = Inr errs' \<Longrightarrow> errors_gql errs' = errors_gql errs"
proof (induction reqs arbitrary: errs)
  case Nil
  then show ?case by simp
next
  case (Cons r reqs)
  then show ?case
    by (auto split: sum.splits dest: rest_request_gql)
qed

lemma rest_loop_inv:
  "rest_inv errs reqs \<Longrightarrow> rest_loop reqs' errs = Inr errs' \<Longrightarrow> rest_inv errs' (reqs @ reqs')"
proof (induction reqs' arbitrary: errs reqs)
  case Nil
  then show ?case by simp
next
  case (Cons r reqs')
  from Cons.prems(2) obtain errs1 where
    1: "rest_request r errs = Inr errs1" and 2: "rest_loop reqs' errs1 = Inr errs'"
    by (auto split: sum.splits)
  from rest_request_step [OF Cons.prems(1) 1] have "rest_inv errs1 (reqs @ [r])" .
  from Cons.IH [OF this 2] show ?case by simp
qed

lemma rest_inv_gql:
  "errors_rest errs' = errors_rest errs \<Longrightarrow> errors_other errs' = errors_other errs \<Longrightarrow>
   rest_inv errs reqs \<Longrightarrow> rest_inv errs' reqs"
  by (simp add: rest_inv_def)

lemma classify_role_inv:
  assumes "rest_inv errs reqs" and "classify_role truthy stringify role errs = Inr errs'"
  shows "rest_inv errs' (reqs @ rest_requests role)"
proof -
  let ?e = "foldl (gql_operation truthy stringify) errs (entries (gql_operations role))"
  have "rest_inv ?e reqs" using assms(1) by (rule rest_inv_gql [rotated 2]) simp_all
  moreover have "rest_loop (rest_requests role) ?e = Inr errs'"
    using assms(2) by (simp add: classify_role_def)
  ultimately show ?thesis by (rule rest_loop_inv)
qed

lemma roles_loop_inv:
  "rest_inv errs reqs \<Longrightarrow> roles_loop truthy stringify rs errs = Inr errs' \<Longrightarrow>
   rest_inv errs' (reqs @ concat (map rest_requests rs))"
proof (induction rs arbitrary: errs reqs)
  case Nil
  then show ?case by simp
next
  case (Cons role rs)
  from Cons.prems(2) obtain errs1 where
    1: "classify_role truthy stringify role errs = Inr errs1" and
    2: "roles_loop truthy stringify rs errs1 = Inr errs'"
    by (auto split: sum.splits)
  from classify_role_inv [OF Cons.prems(1) 1] have "rest_inv errs1 (reqs @ rest_requests role)" .
  from Cons.IH [OF this 2] show ?case by simp
qed

text \<open>The remote-call entries after the loop over the roles.\<close>

lemma classify_role_gql:
  assumes "classify_role truthy stringify role errs = Inr errs'"
  shows "map_of (errors_gql errs') k =
     (case assigned truthy stringify k (gql_operations role) of
        Some entry \<Rightarrow> Some entry
      | None \<Rightarrow> map_of (errors_gql errs) k)"
proof -
  let ?e = "foldl (gql_operation truthy stringify) errs (entries (gql_operations role))"
  have "errors_gql errs' = errors_gql ?e"
    using assms by (simp add: classify_role_def rest_loop_gql)
  moreover have "assigned truthy stringify k (entries (gql_operations role)) =
      assigned truthy stringify k (gql_operations role)"
    by (simp add: assigned_def map_of_entries)
  ultimately show ?thesis
    using foldl_gql_operation_gql [OF distinct_entries, of truthy stringify errs "gql_operations role" k]
    by simp
qed

lemma roles_loop_gql_none:
  "roles_loop truthy stringify rs errs = Inr errs' \<Longrightarrow>
   \<forall>role \<in> set rs. assigned truthy stringify k (gql_operations role) = None \<Longrightarrow>
   map_of (errors_gql errs') k = map_of (errors_gql errs) k"
proof (induction rs arbitrary: errs)
  case Nil
  then show ?case by simp
next
  case (Cons role rs)
  from Cons.prems(1) obtain errs1 where
    1: "classify_role truthy stringify role errs = Inr errs1" and
    2: "roles_loop truthy stringify rs errs1 = Inr errs'"
    by (auto split: sum.splits)
  from Cons.IH [OF 2] Cons.prems(2) classify_role_gql [OF 1, of k]
  show ?case by simp
qed

lemma roles_loop_append:
  "roles_loop truthy stringify (xs @ ys) errs =
     (case roles_loop truthy stringify xs errs of
        Inl e \<Rightarrow> Inl e
      | Inr errs1 \<Rightarrow> roles_loop truthy stringify ys errs1)"
  by (induction xs arbitrary: errs) (auto split: sum.splits)

lemma roles_loop_gql_last:
  assumes "roles_loop truthy stringify (before @ role # after) errs = Inr errs'"
    and "assigned truthy stringify k (gql_operations role) = Some entry"
    and "\<forall>r \<in> set after. assigned truthy stringify k (gql_operations r) = None"
  shows "map_of (errors_gql errs') k = Some entry"
proof -
  from assms(1) obtain errs1 errs2 where
    1: "roles_loop truthy stringify before errs = Inr errs1" and
    2: "classify_role truthy stringify role errs1 = Inr errs2" and
    3: "roles_loop truthy stringify after errs2 = Inr errs'"
    by (auto simp: roles_loop_append split: sum.splits)
  from classify_role_gql [OF 2, of k] assms(2) have "map_of (errors_gql errs2) k = Some entry"
    by simp
  with roles_loop_gql_none [OF 3 assms(3)] show ?thesis by simp
qed

subsection \<open>The report of the classifier\<close>


lemma extendJsonWithErrors_Inr:
  assumes "extendJsonWithErrors truthy stringify \<lparr>roles = rs, errors = None\<rparr> = Inr m'"
  shows "\<exists>e. roles_loop truthy stringify (map snd (entries rs))
               \<lparr>errors_gql = [], errors_rest = [], errors_other = []\<rparr> = Inr e \<and>
             m' = \<lparr>roles = rs, errors = Some e\<rparr>"
  using assms by (auto simp: extendJsonWithErrors_def split: sum.splits)

lemma rest_inv_empty: "rest_inv \<lparr>errors_gql = [], errors_rest = [], errors_other = []\<rparr> []"
  by (simp add: rest_inv_def rest_codes_def)

lemma rest_expected_count:
  "rest_expected cs = Some s \<Longrightarrow> count s = length cs"
  by (cases cs rule: rest_expected.cases) auto

lemma rest_expected_all:
  "2 \<le> length cs \<Longrightarrow> \<exists>s. rest_expected cs = Some s \<and> allStatusCodes s = Listed []"
  by (cases cs rule: rest_expected.cases) auto

lemma roles_loop_gql_source:
  "roles_loop truthy stringify rs errs = Inr errs' \<Longrightarrow>
   map_of (errors_gql errs') k = Some entry \<Longrightarrow>
   map_of (errors_gql errs) k = Some entry \<or>
   (\<exists>role \<in> set rs. assigned truthy stringify k (gql_operations role) = Some entry)"
proof (induction rs arbitrary: errs)
  case Nil
  then show ?case by simp
next
  case (Cons role rs)
  from Cons.prems(1) obtain errs1 where
    1: "classify_role truthy stringify role errs = Inr errs1" and
    2: "roles_loop truthy stringify rs errs1 = Inr errs'"
    by (auto split: sum.splits)
  from Cons.IH [OF 2 Cons.prems(2)]
  consider "map_of (errors_gql errs1) k = Some entry"
    | "\<exists>role \<in> set rs. assigned truthy stringify k (gql_operations role) = Some entry"
    by blast
  then show ?case
  proof cases
    case 1
    with classify_role_gql [OF \<open>classify_role truthy stringify role errs = Inr errs1\<close>, of k]
    show ?thesis by (auto split: option.splits)
  next
    case 2
    then show ?thesis by auto
  qed
qed

lemma assigned_SomeD:
  assumes "assigned truthy stringify k ops = Some entry"
  shows "\<exists>rq summary. map_of ops k = Some rq \<and> triggers truthy stringify rq \<and>
           gql_summary stringify rq = Inr summary \<and> entry = Summary summary"
  using assms by (auto simp: assigned_def split: option.splits if_splits sum.splits)

lemma assigned_SomeI:
  assumes "map_of ops k = Some rq" "triggers truthy stringify rq" "k \<noteq> ''__proto__''"
  shows "\<exists>summary. gql_summary stringify rq = Inr summary \<and>
           assigned truthy stringify k ops = Some (Summary summary)"
proof -
  from gql_summary_Inr [OF triggers_codes [OF assms(2)]]
  obtain summary where "gql_summary stringify rq = Inr summary" by blast
  with assms show ?thesis by (simp add: assigned_def)
qed

lemma assigned_NoneI:
  assumes "\<forall>rq. map_of ops k = Some rq \<longrightarrow> \<not> triggers truthy stringify rq"
  shows "assigned truthy stringify k ops = None"
  using assms by (auto simp: assigned_def split: option.splits)

lemma gql_summary_fields:
  assumes "gql_summary stringify rq = Inr summary"
  shows "errorStatusCodesArray stringify rq \<noteq> [] \<and>
         count summary = length (errorStatusCodesArray stringify rq) \<and>
         most_common (foldl count_status [] (errorStatusCodesArray stringify rq)) =
           Inr (mostCommonStatusCode summary) \<and>
         (\<exists>c. allStatusCodes summary = Single c \<and>
              reduce (more_frequent (foldl count_status [] (errorStatusCodesArray stringify rq)))
                (errorStatusCodesArray stringify rq) = Inr c)"
proof -
  have ne: "errorStatusCodesArray stringify rq \<noteq> []"
  proof
    assume "errorStatusCodesArray stringify rq = []"
    then have "gql_summary stringify rq = Inl TypeError"
      by (simp add: gql_summary_def most_common_def numberKeys_def)
    with assms show False by simp
  qed
  from gql_summary_Inr [OF ne] assms show ?thesis using ne by auto
qed

text \<open>
  Every entry of \<open>errors.gql\<close> is the summary of the requests of the operation in some
  role; its two status codes in terms of the array \<open>errorStatusCodesArray\<close>, and the array
  as the filter it is.
\<close>

lemma gql_mostCommonStatusCode_codes:
  assumes "extendJsonWithErrors truthy stringify \<lparr>roles = rs, errors = None\<rparr> = Inr m'"
    and "errors m' = Some e"
    and "map_of (errors_gql e) name = Some entry"
  shows "\<exists>role rq summary m.
           role \<in> set (map snd (entries rs)) \<and>
           map_of (gql_operations role) name = Some rq \<and>
           entry = Summary summary \<and>
           mostCommonStatusCode summary = Key m \<and>
           m \<in> set (errorStatusCodesArray stringify rq) \<and>
           (\<forall>c. count_list (errorStatusCodesArray stringify rq) c \<le>
                count_list (errorStatusCodesArray stringify rq) m) \<and>
           ((\<forall>c \<in> set (errorStatusCodesArray stringify rq). c < 4294967295) \<longrightarrow>
            (\<forall>c. count_list (errorStatusCodesArray stringify rq) c =
                 count_list (errorStatusCodesArray stringify rq) m \<longrightarrow> c \<le> m))"
proof -
  from extendJsonWithErrors_Inr [OF assms(1)] assms(2)
  have l: "roles_loop truthy stringify (map snd (entries rs))
      \<lparr>errors_gql = [], errors_rest = [], errors_other = []\<rparr> = Inr e"
    by auto
  from roles_loop_gql_source [OF l assms(3)] obtain role where
    r: "role \<in> set (map snd (entries rs))" and
    a: "assigned truthy stringify name (gql_operations role) = Some entry"
    by auto
  from assigned_SomeD [OF a] obtain rq summary where
    q: "map_of (gql_operations role) name = Some rq" "gql_summary stringify rq = Inr summary"
       "entry = Summary summary"
    by blast
  let ?cs = "errorStatusCodesArray stringify rq"
  from gql_summary_fields [OF q(2)] have ne: "?cs \<noteq> []" and
    mc: "most_common (foldl count_status [] ?cs) = Inr (mostCommonStatusCode summary)"
    by simp_all
  from most_common_max [OF ne] mc obtain m where
    m: "mostCommonStatusCode summary = Key m" "m \<in> set ?cs"
       "\<forall>c. count_list ?cs c \<le> count_list ?cs m"
    by auto
  have "\<forall>c. count_list ?cs c = count_list ?cs m \<longrightarrow> c \<le> m"
    if "\<forall>c \<in> set ?cs. c < 4294967295"
    using most_common_largest [OF ne that] mc m(1) by auto
  with r q m show ?thesis by blast
qed

lemma gql_allStatusCodes_single_codes:
  assumes "extendJsonWithErrors truthy stringify \<lparr>roles = rs, errors = None\<rparr> = Inr m'"
    and "errors m' = Some e"
    and "map_of (errors_gql e) name = Some entry"
  shows "\<exists>role rq summary c.
           role \<in> set (map snd (entries rs)) \<and>
           map_of (gql_operations role) name = Some rq \<and>
           entry = Summary summary \<and>
           allStatusCodes summary = Single c \<and>
           reduce (more_frequent (foldl count_status [] (errorStatusCodesArray stringify rq)))
             (errorStatusCodesArray stringify rq) = Inr c \<and>
           c \<in> set (errorStatusCodesArray stringify rq) \<and>
           (\<forall>c'. count_list (errorStatusCodesArray stringify rq) c' \<le>
                 count_list (errorStatusCodesArray stringify rq) c)"
proof -
  from extendJsonWithErrors_Inr [OF assms(1)] assms(2)
  have l: "roles_loop truthy stringify (map snd (entries rs))
      \<lparr>errors_gql = [], errors_rest = [], errors_other = []\<rparr> = Inr e"
    by auto
  from roles_loop_gql_source [OF l assms(3)] obtain role where
    r: "role \<in> set (map snd (entries rs))" and
    a: "assigned truthy stringify name (gql_operations role) = Some entry"
    by auto
  from assigned_SomeD [OF a] obtain rq summary where
    q: "map_of (gql_operations role) name = Some rq" "gql_summary stringify rq = Inr summary"
       "entry = Summary summary"
    by blast
  let ?cs = "errorStatusCodesArray stringify rq"
  from gql_summary_fields [OF q(2)] obtain c where ne: "?cs \<noteq> []" and
    c: "allStatusCodes summary = Single c"
       "reduce (more_frequent (foldl count_status [] ?cs)) ?cs = Inr c"
    by auto
  from reduce_statusCodes [OF ne] c(2) have
    "c \<in> set ?cs" "\<forall>c'. count_list ?cs c' \<le> count_list ?cs c"
    by auto
  with r q c show ?thesis by blast
qed

lemma errorStatusCodesArray_filter:
  "errorStatusCodesArray stringify rq =
     map m_responseStatusCode
       (filter (\<lambda>request. str_includes (stringify (m_responseBody request)) ''error'' \<or>
                          m_responseStatusCode request \<noteq> 200) rq)"
  by (simp add: errorStatusCodesArray_def is_error_def [abs_def])

subsection \<open>The concrete inputs, classified and merged\<close>

lemma example_is_error [simp]:
  "is_error example_stringify (example_request u st) \<longleftrightarrow> st \<noteq> 200"
  by (simp add: is_error_def example_stringify_def example_request_def startsWith_def)

lemma example_truthy_request [simp]:
  "example_truthy (m_responseBody (example_request u st))"
  by (simp add: example_truthy_def example_request_def)

lemma example_request_sel [simp]:
  "m_responseStatusCode (example_request u st) = st"
  "m_requestUrl (example_request u st) = u"
  by (simp_all add: example_request_def)

lemma example_call_simps [simp]:
  "is_error example_stringify (example_call name st) \<longleftrightarrow> st \<noteq> 200"
  "example_truthy (m_responseBody (example_call name st))"
  "m_responseStatusCode (example_call name st) = st"
  by (simp_all add: is_error_def example_stringify_def example_call_def startsWith_def
      example_truthy_def)

lemmas classifier_simps =
  extendJsonWithErrors_def entries_def ownKeys_def array_index_def digit_of_def
  List.map_filter_simps classify_role_def gql_operation_def gql_request_def
  in_errors_def gql_summary_def errorStatusCodesArray_def most_common_def numberKeys_def
  more_frequent_def count_status_def rest_request_def inherited_def example_role_def

lemma array_index_user: "array_index ''user'' = None" "array_index ''admin'' = None"
  by (simp_all add: array_index_def digit_of_def)

lemma entries_user: "entries [(''user'', v)] = [(''user'', v)]"
  by (simp add: entries_def ownKeys_def array_index_user List.map_filter_simps)

lemma inherited_a: "\<not> inherited ''/a''"
  by (simp add: inherited_def)

lemma example_entries:
  "entries [(''user'', u)] = [(''user'', u)]"
  "entries [(''admin'', a), (''user'', u)] = [(''admin'', a), (''user'', u)]"
  by (simp_all add: entries_def ownKeys_def array_index_def digit_of_def List.map_filter_simps)

lemma example_tie_classified:
  "extendJsonWithErrors example_truthy example_stringify
     \<lparr>roles = example_tie_roles, errors = None\<rparr> =
   Inr \<lparr>roles = example_tie_roles, errors = Some example_tie_errors\<rparr>"
  by (simp add: example_tie_roles_def example_tie_errors_def classifier_simps numeral_2_eq_2
      numeral_3_eq_3)

lemma example_last_classified:
  "extendJsonWithErrors example_truthy example_stringify
     \<lparr>roles = example_last_roles, errors = None\<rparr> =
   Inr \<lparr>roles = example_last_roles, errors = Some example_last_errors\<rparr>"
  by (simp add: example_last_roles_def example_last_errors_def classifier_simps numeral_2_eq_2)

lemma example_two_classified:
  "extendJsonWithErrors example_truthy example_stringify
     \<lparr>roles = example_two_roles, errors = None\<rparr> =
   Inr \<lparr>roles = example_two_roles, errors = Some example_two_errors\<rparr>"
  by (simp add: example_two_roles_def example_admin_def example_user_def
      example_two_errors_def classifier_simps numeral_2_eq_2)

lemma role_of_example:
  "role_of ''user_metrics_report_1700000000000.json'' = ''user''"
  "role_of ''user_metrics_report_1700000000001.json'' = ''user''"
  by (simp_all add: role_of_def)

lemma example_files_merged:
  "mergeNetworkTraces example_truthy example_stringify (Some example_files) =
     ([Info_merging_network_metrics, Info_gathering_errors], Inr example_report)"
  by (simp add: mergeNetworkTraces_def example_files_def example_trace_def merge_file_def
      role_of_example merge_request_def example_record_def startsWith_def copy_request_def
      example_report_def example_entry_def example_truthy_def example_stringify_def
      is_error_def classifier_simps)

lemma example_mixed_classified:
  "extendJsonWithErrors example_truthy example_stringify
     \<lparr>roles = example_mixed_roles, errors = None\<rparr> =
   Inr \<lparr>roles = example_mixed_roles, errors = Some example_mixed_errors\<rparr>"
  by (simp add: example_mixed_roles_def example_mixed_errors_def classifier_simps numeral_2_eq_2)

lemma example_order_classified:
  "extendJsonWithErrors example_truthy example_stringify
     \<lparr>roles = example_order_roles, errors = None\<rparr> =
   Inr \<lparr>roles = example_order_roles, errors = Some example_order_errors\<rparr>"
  by (simp add: example_order_roles_def example_order_errors_def classifier_simps numeral_2_eq_2)

lemma example_call_fields:
  "m_responseBody (example_call name st) = ''ok''"
  "str_includes (example_stringify ''ok'') ''error'' = False"
  by (simp_all add: example_call_def example_stringify_def startsWith_def)

section \<open>The claims about the error classifier\<close>

subsection \<open>Three failing requests of one URL\<close>

text \<open>
  Claim C4 expects \<open>count = 3\<close> and \<open>mostCommonStatusCode = 404\<close> for the resource
  requests of \<open>/a\<close> with the status codes 404, 404 and 500. The code gives the count 3
  and \<open>mostCommonStatusCode = null\<close>: the second request empties \<open>allStatusCodes\<close>,
  from which the third computes the frequency map.
\<close>

theorem rest_404_404_500:
  "extendJsonWithErrors example_truthy example_stringify
     \<lparr>roles = [(''user'', example_role []
        [example_request ''/a'' 404, example_request ''/a'' 404, example_request ''/a'' 500])],
      errors = None\<rparr> =
   Inr \<lparr>roles = [(''user'', example_role []
        [example_request ''/a'' 404, example_request ''/a'' 404, example_request ''/a'' 500])],
      errors = Some \<lparr>errors_gql = [],
        errors_rest = [(''/a'', \<lparr>count = 3, mostCommonStatusCode = Null,
                                 allStatusCodes = Listed []\<rparr>)],
        errors_other = []\<rparr>\<rparr>"
  by (simp add: extendJsonWithErrors_def entries_user classify_role_def example_role_def
      entries_def ownKeys_def List.map_filter_simps rest_request_def inherited_a
      most_common_def numberKeys_def more_frequent_def count_status_def)

subsection \<open>The most common status code\<close>

text \<open>
  Claim C7 says that on both paths \<open>mostCommonStatusCode\<close> is the most frequent status
  code of the erroring requests and that a tie goes to the code that appeared first.
  For the remote-call requests of \<open>GetCart\<close> with the status codes 404 and 500, each
  once, the code gives the key \<open>500\<close>, not 404; for three resource requests of \<open>/a\<close>
  with the status code 404 it gives \<open>null\<close>.
\<close>

theorem first_appearance_counterexample:
  "errorStatusCodesArray example_stringify
     [example_call ''GetCart'' 404, example_call ''GetCart'' 500] = [404, 500] \<and>
   rest_codes ''/a''
     [example_request ''/a'' 404, example_request ''/a'' 404, example_request ''/a'' 404] =
     [404, 404, 404] \<and>
   extendJsonWithErrors example_truthy example_stringify
     \<lparr>roles =
        [(''user'', example_role
           [(''GetCart'', [example_call ''GetCart'' 404, example_call ''GetCart'' 500])]
           [example_request ''/a'' 404, example_request ''/a'' 404, example_request ''/a'' 404])],
      errors = None\<rparr> =
   Inr \<lparr>roles =
        [(''user'', example_role
           [(''GetCart'', [example_call ''GetCart'' 404, example_call ''GetCart'' 500])]
           [example_request ''/a'' 404, example_request ''/a'' 404, example_request ''/a'' 404])],
      errors =
        Some \<lparr>errors_gql =
                [(''GetCart'', Summary \<lparr>count = 2, mostCommonStatusCode = Key 500,
                                         allStatusCodes = Single 500\<rparr>)],
              errors_rest =
                [(''/a'', \<lparr>count = 3, mostCommonStatusCode = Null,
                           allStatusCodes = Listed []\<rparr>)],
              errors_other = []\<rparr>\<rparr>"
  using example_tie_classified
  by (simp add: example_tie_roles_def example_tie_errors_def errorStatusCodesArray_def
      rest_codes_def)

text \<open>
  Claim C7, as the code has it on the remote-call path. Every entry of \<open>errors.gql\<close>
  is the summary of the requests of that operation in some role, and its
  \<open>mostCommonStatusCode\<close> is the key of a status code with the highest frequency among
  the status codes of the erroring requests of the operation, those whose serialised
  response body contains \<open>error\<close> or whose status code is not 200; when these status
  codes are array indices (below \<open>2^32 - 1\<close>, as every HTTP status code is),
  \<open>Object.keys\<close> lists them in ascending order and a tie goes to the numerically
  largest of the most frequent codes.
\<close>

theorem gql_mostCommonStatusCode:
  assumes "extendJsonWithErrors truthy stringify \<lparr>roles = rs, errors = None\<rparr> = Inr m'"
    and "errors m' = Some e"
    and "map_of (errors_gql e) name = Some entry"
  shows "\<exists>role rq summary m.
           role \<in> set (map snd (entries rs)) \<and>
           map_of (gql_operations role) name = Some rq \<and>
           entry = Summary summary \<and>
           mostCommonStatusCode summary = Key m \<and>
           (let codes =
              map m_responseStatusCode
                (filter (\<lambda>request.
                           str_includes (stringify (m_responseBody request)) ''error'' \<or>
                           m_responseStatusCode request \<noteq> 200) rq)
            in m \<in> set codes \<and>
               (\<forall>c. count_list codes c \<le> count_list codes m) \<and>
               ((\<forall>c \<in> set codes. c < 4294967295) \<longrightarrow>
                (\<forall>c. count_list codes c = count_list codes m \<longrightarrow> c \<le> m)))"
  using gql_mostCommonStatusCode_codes [OF assms]
  unfolding errorStatusCodesArray_filter Let_def .

text \<open>
  The requests of \<open>GetCart\<close> with the status codes 404, 200, 500, 200 and 200, none
  with \<open>error\<close> in its body: the erroring codes are 404 and 500, each once, and the key
  is \<open>500\<close>, although 200 is the most frequent code of the operation.
\<close>

theorem gql_mostCommonStatusCode_witness:
  "extendJsonWithErrors example_truthy example_stringify
     \<lparr>roles = example_mixed_roles, errors = None\<rparr> =
     Inr \<lparr>roles = example_mixed_roles, errors = Some example_mixed_errors\<rparr> \<and>
   map_of (gql_operations (snd (hd example_mixed_roles))) ''GetCart'' =
     Some [example_call ''GetCart'' 404, example_call ''GetCart'' 200, example_call ''GetCart'' 500, example_call ''GetCart'' 200, example_call ''GetCart'' 200] \<and>
   map_of (errors_gql example_mixed_errors) ''GetCart'' =
     Some (Summary \<lparr>count = 2, mostCommonStatusCode = Key 500, allStatusCodes = Single 500\<rparr>) \<and>
   map m_responseStatusCode
     (filter (\<lambda>request.
                str_includes (example_stringify (m_responseBody request)) ''error'' \<or>
                m_responseStatusCode request \<noteq> 200)
        [example_call ''GetCart'' 404,
         example_call ''GetCart'' 200,
         example_call ''GetCart'' 500,
         example_call ''GetCart'' 200,
         example_call ''GetCart'' 200]) = [404, 500] \<and>
   list_all (\<lambda>c. c < 4294967295) [404, 500 :: nat] \<and>
   count_list [404, 500 :: nat] 404 = count_list [404, 500 :: nat] 500 \<and>
   (\<exists>role rq summary m.
      role \<in> set (map snd (entries example_mixed_roles)) \<and>
      map_of (gql_operations role) ''GetCart'' = Some rq \<and>
      Summary \<lparr>count = 2, mostCommonStatusCode = Key 500, allStatusCodes = Single 500\<rparr> =
        Summary summary \<and>
      mostCommonStatusCode summary = Key m \<and>
      (let codes =
         map m_responseStatusCode
           (filter (\<lambda>request.
                      str_includes (example_stringify (m_responseBody request)) ''error'' \<or>
                      m_responseStatusCode request \<noteq> 200) rq)
       in m \<in> set codes \<and>
          (\<forall>c. count_list codes c \<le> count_list codes m) \<and>
          ((\<forall>c \<in> set codes. c < 4294967295) \<longrightarrow>
           (\<forall>c. count_list codes c = count_list codes m \<longrightarrow> c \<le> m))))"
proof -
  have a: "extendJsonWithErrors example_truthy example_stringify
     \<lparr>roles = example_mixed_roles, errors = None\<rparr> =
     Inr \<lparr>roles = example_mixed_roles, errors = Some example_mixed_errors\<rparr>"
    by (rule example_mixed_classified)
  have b: "errors \<lparr>roles = example_mixed_roles, errors = Some example_mixed_errors\<rparr> =
      Some example_mixed_errors"
    by simp
  have c: "map_of (errors_gql example_mixed_errors) ''GetCart'' =
     Some (Summary \<lparr>count = 2, mostCommonStatusCode = Key 500, allStatusCodes = Single 500\<rparr>)"
    by (simp add: example_mixed_errors_def)
  have d: "map_of (gql_operations (snd (hd example_mixed_roles))) ''GetCart'' =
     Some [example_call ''GetCart'' 404, example_call ''GetCart'' 200, example_call ''GetCart'' 500, example_call ''GetCart'' 200, example_call ''GetCart'' 200]"
    by (simp add: example_mixed_roles_def example_role_def)
  have f: "map m_responseStatusCode
       (filter (\<lambda>request.
                  str_includes (example_stringify (m_responseBody request)) ''error'' \<or>
                  m_responseStatusCode request \<noteq> 200)
          [example_call ''GetCart'' 404,
           example_call ''GetCart'' 200,
           example_call ''GetCart'' 500,
           example_call ''GetCart'' 200,
           example_call ''GetCart'' 200]) = [404, 500]"
    by (simp add: example_call_fields)
  have g: "list_all (\<lambda>c. c < 4294967295) [404, 500 :: nat]"
    "count_list [404, 500 :: nat] 404 = count_list [404, 500 :: nat] 500"
    by simp_all
  from gql_mostCommonStatusCode [OF a b c] a c d f g show ?thesis by blast
qed

subsection \<open>The field allStatusCodes of the remote-call path\<close>

text \<open>
  Claim C8. On the remote-call path the value under \<open>allStatusCodes\<close> is a single
  status code, not a list: the result of the reduction with the most-frequent callback
  over the status codes of the erroring requests of the operation (those whose
  serialised response body contains \<open>error\<close> or whose status code is not 200), which
  is one of these codes and has the highest frequency among them.
\<close>

theorem gql_allStatusCodes_single:
  assumes "extendJsonWithErrors truthy stringify \<lparr>roles = rs, errors = None\<rparr> = Inr m'"
    and "errors m' = Some e"
    and "map_of (errors_gql e) name = Some entry"
  shows "\<exists>role rq summary c.
           role \<in> set (map snd (entries rs)) \<and>
           map_of (gql_operations role) name = Some rq \<and>
           entry = Summary summary \<and>
           allStatusCodes summary = Single c \<and>
           (let codes =
              map m_responseStatusCode
                (filter (\<lambda>request.
                           str_includes (stringify (m_responseBody request)) ''error'' \<or>
                           m_responseStatusCode request \<noteq> 200) rq)
            in reduce (more_frequent (foldl count_status [] codes)) codes = Inr c \<and>
               c \<in> set codes \<and>
               (\<forall>c'. count_list codes c' \<le> count_list codes c))"
  using gql_allStatusCodes_single_codes [OF assms]
  unfolding errorStatusCodesArray_filter Let_def .

text \<open>
  The requests of \<open>GetCart\<close> with the status codes 500, 200, 404, 200 and 200, none
  with \<open>error\<close> in its body: the erroring codes are 500 and 404, and \<open>allStatusCodes\<close>
  is the number 404, the last of the most frequent of them, not 200 and not a list,
  while \<open>mostCommonStatusCode\<close> is the key \<open>500\<close>.
\<close>

theorem gql_allStatusCodes_single_witness:
  "extendJsonWithErrors example_truthy example_stringify
     \<lparr>roles = example_order_roles, errors = None\<rparr> =
     Inr \<lparr>roles = example_order_roles, errors = Some example_order_errors\<rparr> \<and>
   map_of (gql_operations (snd (hd example_order_roles))) ''GetCart'' =
     Some [example_call ''GetCart'' 500, example_call ''GetCart'' 200, example_call ''GetCart'' 404, example_call ''GetCart'' 200, example_call ''GetCart'' 200] \<and>
   map_of (errors_gql example_order_errors) ''GetCart'' =
     Some (Summary \<lparr>count = 2, mostCommonStatusCode = Key 500, allStatusCodes = Single 404\<rparr>) \<and>
   map m_responseStatusCode
     (filter (\<lambda>request.
                str_includes (example_stringify (m_responseBody request)) ''error'' \<or>
                m_responseStatusCode request \<noteq> 200)
        [example_call ''GetCart'' 500,
         example_call ''GetCart'' 200,
         example_call ''GetCart'' 404,
         example_call ''GetCart'' 200,
         example_call ''GetCart'' 200]) = [500, 404] \<and>
   (\<exists>role rq summary c.
      role \<in> set (map snd (entries example_order_roles)) \<and>
      map_of (gql_operations role) ''GetCart'' = Some rq \<and>
      Summary \<lparr>count = 2, mostCommonStatusCode = Key 500, allStatusCodes = Single 404\<rparr> =
        Summary summary \<and>
      allStatusCodes summary = Single c \<and>
      (let codes =
         map m_responseStatusCode
           (filter (\<lambda>request.
                      str_includes (example_stringify (m_responseBody request)) ''error'' \<or>
                      m_responseStatusCode request \<noteq> 200) rq)
       in reduce (more_frequent (foldl count_status [] codes)) codes = Inr c \<and>
          c \<in> set codes \<and>
          (\<forall>c'. count_list codes c' \<le> count_list codes c)))"
proof -
  have a: "extendJsonWithErrors example_truthy example_stringify
     \<lparr>roles = example_order_roles, errors = None\<rparr> =
     Inr \<lparr>roles = example_order_roles, errors = Some example_order_errors\<rparr>"
    by (rule example_order_classified)
  have b: "errors \<lparr>roles = example_order_roles, errors = Some example_order_errors\<rparr> =
      Some example_order_errors"
    by simp
  have c: "map_of (errors_gql example_order_errors) ''GetCart'' =
     Some (Summary \<lparr>count = 2, mostCommonStatusCode = Key 500, allStatusCodes = Single 404\<rparr>)"
    by (simp add: example_order_errors_def)
  have d: "map_of (gql_operations (snd (hd example_order_roles))) ''GetCart'' =
     Some [example_call ''GetCart'' 500, example_call ''GetCart'' 200, example_call ''GetCart'' 404, example_call ''GetCart'' 200, example_call ''GetCart'' 200]"
    by (simp add: example_order_roles_def example_role_def)
  have f: "map m_responseStatusCode
       (filter (\<lambda>request.
                  str_includes (example_stringify (m_responseBody request)) ''error'' \<or>
                  m_responseStatusCode request \<noteq> 200)
          [example_call ''GetCart'' 500,
           example_call ''GetCart'' 200,
           example_call ''GetCart'' 404,
           example_call ''GetCart'' 200,
           example_call ''GetCart'' 200]) = [500, 404]"
    by (simp add: example_call_fields)
  from gql_allStatusCodes_single [OF a b c] a c d f show ?thesis by blast
qed

subsection \<open>The field allStatusCodes of the resource path\<close>

text \<open>
  Claim C9. On the resource path, for every URL with two or more erroring requests
  (over all the roles), the final \<open>allStatusCodes\<close> of the URL's summary is the empty
  list, and the key \<open>rest-url\<close> of \<open>errors\<close>, from which the update reads, is not a
  property of \<open>errors\<close>.
\<close>

theorem rest_allStatusCodes_empty:
  assumes "extendJsonWithErrors truthy stringify \<lparr>roles = rs, errors = None\<rparr> = Inr m'"
    and "2 \<le> length (rest_codes url (concat (map rest_requests (map snd (entries rs)))))"
  shows "\<exists>e summary.
           errors m' = Some e \<and>
           map_of (errors_other e) (''rest-'' @ url) = None \<and>
           map_of (errors_rest e) url = Some summary \<and>
           allStatusCodes summary = Listed []"
proof -
  from extendJsonWithErrors_Inr [OF assms(1)] obtain e where
    l: "roles_loop truthy stringify (map snd (entries rs))
      \<lparr>errors_gql = [], errors_rest = [], errors_other = []\<rparr> = Inr e" and
    m: "m' = \<lparr>roles = rs, errors = Some e\<rparr>"
    by auto
  from roles_loop_inv [OF rest_inv_empty l]
  have i: "rest_inv e (concat (map rest_requests (map snd (entries rs))))" by simp
  then have "errors_other e = []" by (simp add: rest_inv_def)
  moreover from i rest_expected_all [OF assms(2)] obtain summary where
    "map_of (errors_rest e) url = Some summary" "allStatusCodes summary = Listed []"
    by (auto simp: rest_inv_def)
  ultimately show ?thesis using m by simp
qed

text \<open>
  Two failing requests of \<open>/cart\<close>.
\<close>

theorem rest_allStatusCodes_empty_witness:
  "extendJsonWithErrors example_truthy example_stringify
     \<lparr>roles = example_last_roles, errors = None\<rparr> =
     Inr \<lparr>roles = example_last_roles, errors = Some example_last_errors\<rparr> \<and>
   2 \<le> length (rest_codes ''/cart''
          (concat (map rest_requests (map snd (entries example_last_roles))))) \<and>
   (\<exists>e summary.
      errors \<lparr>roles = example_last_roles, errors = Some example_last_errors\<rparr> = Some e \<and>
      map_of (errors_other e) (''rest-'' @ ''/cart'') = None \<and>
      map_of (errors_rest e) ''/cart'' = Some summary \<and>
      allStatusCodes summary = Listed [])"
proof -
  have a: "extendJsonWithErrors example_truthy example_stringify
     \<lparr>roles = example_last_roles, errors = None\<rparr> =
     Inr \<lparr>roles = example_last_roles, errors = Some example_last_errors\<rparr>"
    by (rule example_last_classified)
  have b: "2 \<le> length (rest_codes ''/cart''
          (concat (map rest_requests (map snd (entries example_last_roles)))))"
    by (simp add: example_last_roles_def example_entries example_role_def rest_codes_def)
  from rest_allStatusCodes_empty [OF a b] a b show ?thesis by blast
qed

subsection \<open>An operation or a URL shared by roles\<close>

text \<open>
  Claim C10 says that the entry of \<open>errors.gql\<close> for an operation that occurs under more
  than one role is computed from the requests of the last-processed role that contains
  the operation. A role in which no request of the operation passes the two tests of the
  loop assigns nothing: here \<open>GetCart\<close> occurs under \<open>admin\<close>, with a failing request,
  and then under \<open>user\<close>, with a successful one, and the entry is the summary of the
  requests under \<open>admin\<close>.
\<close>

theorem last_role_counterexample:
  "entries example_two_roles = [(''admin'', example_admin), (''user'', example_user)] \<and>
   map_of (gql_operations example_admin) ''GetCart'' = Some [example_call ''GetCart'' 500] \<and>
   map_of (gql_operations example_user) ''GetCart'' = Some [example_call ''GetCart'' 200] \<and>
   errorStatusCodesArray example_stringify [example_call ''GetCart'' 200] = [] \<and>
   extendJsonWithErrors example_truthy example_stringify
     \<lparr>roles = example_two_roles, errors = None\<rparr> =
   Inr \<lparr>roles = example_two_roles,
        errors =
          Some \<lparr>errors_gql =
                  [(''GetCart'', Summary \<lparr>count = 1, mostCommonStatusCode = Key 500,
                                           allStatusCodes = Single 500\<rparr>)],
                errors_rest =
                  [(''/a'', \<lparr>count = 2, mostCommonStatusCode = Key 404,
                             allStatusCodes = Listed []\<rparr>)],
                errors_other = []\<rparr>\<rparr>"
  using example_two_classified
  by (simp add: example_two_roles_def example_entries example_two_errors_def example_admin_def
      example_user_def example_role_def errorStatusCodesArray_def)

text \<open>
  Claim C10, as the code has it. The entry of \<open>errors.gql\<close> for an operation name
  (other than \<open>__proto__\<close>, which no operation of a merged report has, by
  \<open>mergeNetworkTraces_operation_names\<close>) is the summary of the
  requests of the operation in the last role, in the order of the loop over the roles,
  in which a request of the operation has a truthy response body and is an error; the
  summaries of earlier roles are overwritten, and there is no entry if there is no such
  role. The \<open>count\<close> of an entry of \<open>errors.rest\<close> is the
  number of the erroring requests of the URL over all the roles.
\<close>

theorem shared_operation_and_url:
  assumes "extendJsonWithErrors truthy stringify \<lparr>roles = rs, errors = None\<rparr> = Inr m'"
  shows "\<exists>e. errors m' = Some e \<and>
           (\<forall>before role after rq.
              name \<noteq> ''__proto__'' \<and>
              map snd (entries rs) = before @ role # after \<and>
              map_of (gql_operations role) name = Some rq \<and>
              triggers truthy stringify rq \<and>
              (\<forall>r \<in> set after. \<forall>rq'. map_of (gql_operations r) name = Some rq' \<longrightarrow>
                 \<not> triggers truthy stringify rq') \<longrightarrow>
              (\<exists>summary. gql_summary stringify rq = Inr summary \<and>
                 map_of (errors_gql e) name = Some (Summary summary))) \<and>
           ((\<forall>role \<in> set (map snd (entries rs)).
               \<forall>rq. map_of (gql_operations role) name = Some rq \<longrightarrow>
                 \<not> triggers truthy stringify rq) \<longrightarrow>
            map_of (errors_gql e) name = None) \<and>
           (\<forall>summary. map_of (errors_rest e) url = Some summary \<longrightarrow>
              count summary =
                length (rest_codes url (concat (map rest_requests (map snd (entries rs))))))"
proof -
  from extendJsonWithErrors_Inr [OF assms(1)] obtain e where
    l: "roles_loop truthy stringify (map snd (entries rs))
      \<lparr>errors_gql = [], errors_rest = [], errors_other = []\<rparr> = Inr e" and
    m: "m' = \<lparr>roles = rs, errors = Some e\<rparr>"
    by auto
  have 1: "\<exists>summary. gql_summary stringify rq = Inr summary \<and>
                 map_of (errors_gql e) name = Some (Summary summary)"
    if s: "map snd (entries rs) = before @ role # after"
      and q: "map_of (gql_operations role) name = Some rq" "triggers truthy stringify rq"
        "name \<noteq> ''__proto__''"
      and n: "\<forall>r \<in> set after. \<forall>rq'. map_of (gql_operations r) name = Some rq' \<longrightarrow>
                 \<not> triggers truthy stringify rq'"
    for before role after rq
  proof -
    from assigned_SomeI [OF q] obtain summary where
      a: "gql_summary stringify rq = Inr summary"
         "assigned truthy stringify name (gql_operations role) = Some (Summary summary)"
      by blast
    have "\<forall>r \<in> set after. assigned truthy stringify name (gql_operations r) = None"
      using n by (auto intro: assigned_NoneI)
    from roles_loop_gql_last [OF l [unfolded s] a(2) this] a(1) show ?thesis by blast
  qed
  have 2: "map_of (errors_gql e) name = None"
    if "\<forall>role \<in> set (map snd (entries rs)).
               \<forall>rq. map_of (gql_operations role) name = Some rq \<longrightarrow>
                 \<not> triggers truthy stringify rq"
  proof -
    from that have "\<forall>role \<in> set (map snd (entries rs)).
        assigned truthy stringify name (gql_operations role) = None"
      by (auto intro: assigned_NoneI)
    from roles_loop_gql_none [OF l this] show ?thesis by simp
  qed
  from roles_loop_inv [OF rest_inv_empty l]
  have i: "rest_inv e (concat (map rest_requests (map snd (entries rs))))" by simp
  have 3: "count summary =
      length (rest_codes url (concat (map rest_requests (map snd (entries rs)))))"
    if "map_of (errors_rest e) url = Some summary" for summary
    using i that by (auto simp: rest_inv_def dest: rest_expected_count)
  have p0: "errors m' = Some e" using m by simp
  have p1: "\<forall>before role after rq.
              name \<noteq> ''__proto__'' \<and>
              map snd (entries rs) = before @ role # after \<and>
              map_of (gql_operations role) name = Some rq \<and>
              triggers truthy stringify rq \<and>
              (\<forall>r \<in> set after. \<forall>rq'. map_of (gql_operations r) name = Some rq' \<longrightarrow>
                 \<not> triggers truthy stringify rq') \<longrightarrow>
              (\<exists>summary. gql_summary stringify rq = Inr summary \<and>
                 map_of (errors_gql e) name = Some (Summary summary))"
    using 1 by blast
  have p3: "\<forall>summary. map_of (errors_rest e) url = Some summary \<longrightarrow>
              count summary =
                length (rest_codes url (concat (map rest_requests (map snd (entries rs)))))"
    using 3 by blast
  show ?thesis
    by (rule exI [of _ e]) (intro conjI impI p0 p1 p3, erule 2)
qed

text \<open>
  \<open>GetCart\<close> and \<open>/a\<close> under \<open>admin\<close> and \<open>user\<close>; no role has \<open>GetOrders\<close>.
\<close>

theorem shared_operation_and_url_witness:
  "extendJsonWithErrors example_truthy example_stringify
     \<lparr>roles = example_two_roles, errors = None\<rparr> =
     Inr \<lparr>roles = example_two_roles, errors = Some example_two_errors\<rparr> \<and>
   ''GetCart'' \<noteq> ''__proto__'' \<and>
   map snd (entries example_two_roles) = [] @ example_admin # [example_user] \<and>
   map_of (gql_operations example_admin) ''GetCart'' = Some [example_call ''GetCart'' 500] \<and>
   triggers example_truthy example_stringify [example_call ''GetCart'' 500] \<and>
   map_of (gql_operations example_user) ''GetCart'' = Some [example_call ''GetCart'' 200] \<and>
   \<not> triggers example_truthy example_stringify [example_call ''GetCart'' 200] \<and>
   (\<exists>summary. gql_summary example_stringify [example_call ''GetCart'' 500] = Inr summary \<and>
      map_of (errors_gql example_two_errors) ''GetCart'' = Some (Summary summary)) \<and>
   map_of (gql_operations example_admin) ''GetOrders'' = None \<and>
   map_of (gql_operations example_user) ''GetOrders'' = None \<and>
   map_of (errors_gql example_two_errors) ''GetOrders'' = None \<and>
   map_of (errors_rest example_two_errors) ''/a'' =
     Some \<lparr>count = 2, mostCommonStatusCode = Key 404, allStatusCodes = Listed []\<rparr> \<and>
   length (rest_codes ''/a'' (concat (map rest_requests (map snd (entries example_two_roles))))) = 2"
proof -
  have a: "extendJsonWithErrors example_truthy example_stringify
     \<lparr>roles = example_two_roles, errors = None\<rparr> =
     Inr \<lparr>roles = example_two_roles, errors = Some example_two_errors\<rparr>"
    by (rule example_two_classified)
  have b: "map snd (entries example_two_roles) = [] @ example_admin # [example_user]"
    by (simp add: example_two_roles_def example_entries)
  have c: "map_of (gql_operations example_admin) ''GetCart'' = Some [example_call ''GetCart'' 500]"
    by (simp add: example_admin_def example_role_def)
  have d: "triggers example_truthy example_stringify [example_call ''GetCart'' 500]"
    by (simp add: triggers_def)
  have u: "map_of (gql_operations example_user) ''GetCart'' = Some [example_call ''GetCart'' 200]"
    "\<not> triggers example_truthy example_stringify [example_call ''GetCart'' 200]"
    by (simp_all add: example_user_def example_role_def triggers_def)
  then have e: "\<forall>r \<in> set [example_user]. \<forall>rq'. map_of (gql_operations r) ''GetCart'' = Some rq' \<longrightarrow>
      \<not> triggers example_truthy example_stringify rq'"
    by simp
  have o: "map_of (gql_operations example_admin) ''GetOrders'' = None"
    "map_of (gql_operations example_user) ''GetOrders'' = None"
    by (simp_all add: example_admin_def example_user_def example_role_def)
  then have f: "\<forall>role \<in> set (map snd (entries example_two_roles)).
      \<forall>rq. map_of (gql_operations role) ''GetOrders'' = Some rq \<longrightarrow>
        \<not> triggers example_truthy example_stringify rq"
    by (simp add: b)
  have g: "map_of (errors_rest example_two_errors) ''/a'' =
     Some \<lparr>count = 2, mostCommonStatusCode = Key 404, allStatusCodes = Listed []\<rparr>"
    by (simp add: example_two_errors_def)
  from shared_operation_and_url [OF a, of "''GetCart''" "''/a''"]
  obtain e1 where
    e1: "errors \<lparr>roles = example_two_roles, errors = Some example_two_errors\<rparr> = Some e1" and
    g1: "\<forall>before role after rq.
           ''GetCart'' \<noteq> ''__proto__'' \<and>
           map snd (entries example_two_roles) = before @ role # after \<and>
           map_of (gql_operations role) ''GetCart'' = Some rq \<and>
           triggers example_truthy example_stringify rq \<and>
           (\<forall>r \<in> set after. \<forall>rq'. map_of (gql_operations r) ''GetCart'' = Some rq' \<longrightarrow>
              \<not> triggers example_truthy example_stringify rq') \<longrightarrow>
           (\<exists>summary. gql_summary example_stringify rq = Inr summary \<and>
              map_of (errors_gql e1) ''GetCart'' = Some (Summary summary))" and
    g3: "\<forall>summary. map_of (errors_rest e1) ''/a'' = Some summary \<longrightarrow>
           count summary =
             length (rest_codes ''/a''
               (concat (map rest_requests (map snd (entries example_two_roles)))))"
    by blast
  from e1 have e1': "e1 = example_two_errors" by simp
  have n: "''GetCart'' \<noteq> ''__proto__''" by simp
  from g1 [rule_format, OF conjI [OF n conjI [OF b conjI [OF c conjI [OF d e]]]]]
  have 1: "\<exists>summary. gql_summary example_stringify [example_call ''GetCart'' 500] = Inr summary \<and>
      map_of (errors_gql example_two_errors) ''GetCart'' = Some (Summary summary)"
    unfolding e1' .
  from shared_operation_and_url [OF a, of "''GetOrders''" "''/a''"]
  obtain e2 where
    e2: "errors \<lparr>roles = example_two_roles, errors = Some example_two_errors\<rparr> = Some e2" and
    g2: "(\<forall>role \<in> set (map snd (entries example_two_roles)).
            \<forall>rq. map_of (gql_operations role) ''GetOrders'' = Some rq \<longrightarrow>
              \<not> triggers example_truthy example_stringify rq) \<longrightarrow>
         map_of (errors_gql e2) ''GetOrders'' = None"
    by blast
  from e2 have e2': "e2 = example_two_errors" by simp
  from g2 f have 2: "map_of (errors_gql example_two_errors) ''GetOrders'' = None"
    unfolding e2' by blast
  from g3 [rule_format, of "\<lparr>count = 2, mostCommonStatusCode = Key 404,
      allStatusCodes = Listed []\<rparr>"] g
  have 3: "length (rest_codes ''/a''
      (concat (map rest_requests (map snd (entries example_two_roles))))) = 2"
    unfolding e1' by simp
  from a n b c d u o g 1 2 3 show ?thesis by blast
qed


section \<open>The claims about the merge\<close>

subsection \<open>Two trace files of one role\<close>

text \<open>
  Claim C3 says that the second file of a role replaces the role's
  \<open>overallInformation\<close>. The code assigns \<open>overallInformation\<close> only when it seeds a
  role that is not yet in the report: for two files of the role \<open>user\<close> with
  \<open>totalRequests\<close> 5 and 8, the merged \<open>totalRequests\<close> is 5.
\<close>

theorem same_role_counterexample:
  "role_of ''user_metrics_report_1700000000000.json'' = ''user'' \<and>
   role_of ''user_metrics_report_1700000000001.json'' = ''user'' \<and>
   totalRequests (example_overall 5) = 5 \<and>
   totalRequests (example_overall 8) = 8 \<and>
   (case mergeNetworkTraces example_truthy example_stringify
           (Some [(''user_metrics_report_1700000000000.json'',
                   Some (example_trace 5
                     [example_record ''https://shop.example/graphql'' 500 ''GetCart''])),
                  (''user_metrics_report_1700000000001.json'',
                   Some (example_trace 8
                     [example_record ''https://shop.example/logo.png'' 404 ''GetCart'']))]) of
      (lg, Inl e) \<Rightarrow> None
    | (lg, Inr report) \<Rightarrow>
        map_option (\<lambda>entry. totalRequests (role_overallInformation entry))
          (map_of (roles report) ''user'')) = Some 5"
  using example_files_merged
  by (simp add: example_files_def example_report_def example_entry_def example_overall_def
      role_of_example)

text \<open>
  Claim C3, as the code has it. The \<open>overallInformation\<close> of a role in the merged
  report is that of the first file of the role, in the order of the directory listing,
  that parses; the files of the role that follow neither replace it nor add to it.
\<close>

theorem mergeNetworkTraces_first_overallInformation:
  assumes "mergeNetworkTraces truthy stringify (Some files) = (lg, Inr report)"
    and "map_of (roles report) role = Some entry"
  shows "\<exists>name metrics.
           List.find (\<lambda>f. role_of (fst f) = role \<and> snd f \<noteq> None) files =
             Some (name, Some metrics) \<and>
           role_overallInformation entry = metrics_overallInformation metrics"
proof -
  from assms(1) obtain lg1 rs where
    m: "merge_files files [Info_merging_network_metrics] [] = (lg1, Inr rs)" and
    x: "extendJsonWithErrors truthy stringify \<lparr>roles = rs, errors = None\<rparr> = Inr report"
    by (auto simp: mergeNetworkTraces_def split: prod.splits sum.splits)
  from x have "roles report = rs" using extendJsonWithErrors_roles by fastforce
  with assms(2) have "map_option role_overallInformation (map_of rs role) =
      Some (role_overallInformation entry)" by simp
  with merge_files_oi [OF m, of role] show ?thesis
    by (auto split: option.splits if_splits)
qed

text \<open>
  The two files of the role \<open>user\<close>.
\<close>

theorem mergeNetworkTraces_first_overallInformation_witness:
  "mergeNetworkTraces example_truthy example_stringify (Some example_files) =
     ([Info_merging_network_metrics, Info_gathering_errors], Inr example_report) \<and>
   map_of (roles example_report) ''user'' = Some example_entry \<and>
   (\<exists>name metrics.
      List.find (\<lambda>f. role_of (fst f) = ''user'' \<and> snd f \<noteq> None) example_files =
        Some (name, Some metrics) \<and>
      role_overallInformation example_entry = metrics_overallInformation metrics) \<and>
   totalRequests (role_overallInformation example_entry) = 5"
proof -
  have a: "mergeNetworkTraces example_truthy example_stringify (Some example_files) =
     ([Info_merging_network_metrics, Info_gathering_errors], Inr example_report)"
    by (rule example_files_merged)
  have b: "map_of (roles example_report) ''user'' = Some example_entry"
    by (simp add: example_report_def)
  have c: "totalRequests (role_overallInformation example_entry) = 5"
    by (simp add: example_entry_def example_overall_def)
  from mergeNetworkTraces_first_overallInformation [OF a b] a b c show ?thesis by blast
qed

subsection \<open>A missing trace store\<close>

text \<open>
  Claim C6 expects a missing trace store to be treated as empty. The code logs the
  warning and leaves \<open>files\<close> undefined, and \<open>files.forEach\<close> throws: no report is
  written.
\<close>

theorem missing_store:
  "mergeNetworkTraces truthy stringify None =
     ([Info_merging_network_metrics, Warn_metrics_folder_not_found], Inl TypeError)"
  by (simp add: mergeNetworkTraces_def)

text \<open>An empty store, for comparison: the report is written, with no roles.\<close>

lemma empty_store:
  "mergeNetworkTraces truthy stringify (Some []) =
     ([Info_merging_network_metrics, Info_gathering_errors],
      Inr \<lparr>roles = [],
           errors = Some \<lparr>errors_gql = [], errors_rest = [], errors_other = []\<rparr>\<rparr>)"
  by (simp add: mergeNetworkTraces_def extendJsonWithErrors_def entries_def ownKeys_def
      List.map_filter_simps)

end
